theory Spec2Isabelle
  imports Main "HOL-Library.Word" "HOL-Library.Char_ord" "HOL-Library.List_Lexorder"
begin

section \<open>Common types\<close>

text \<open>
  Go's \<open>int64\<close> row identifiers and byte counts are modelled as unbounded \<open>int\<close>: the
  identifiers come from SQLite's AUTOINCREMENT sequences and the byte counts are lengths of
  byte sequences that were really transferred, so no value of the model reaches \<open>2^63\<close>.
  A \<open>time.Time\<close> is an \<open>int\<close> (an instant on a linear clock), \<open>sql.NullInt64\<close> and
  \<open>sql.NullTime\<close> are \<open>int option\<close>.  Every call of \<open>now()\<close> or \<open>time.Now()\<close> reads a
  parameter \<open>now\<close>.
\<close>

type_synonym byte = "8 word"
type_synonym time = int

text \<open>Every error value the modelled functions return.\<close>

datatype error =
    ErrNoRows                 \<comment> \<open>\<open>sql.ErrNoRows\<close>\<close>
  | ErrNameConflict           \<comment> \<open>\<open>nameConflictError()\<close>: "name already exists", wraps \<open>os.ErrExist\<close>\<close>
  | ErrConstraint             \<comment> \<open>SQLite constraint failure (foreign key, UNIQUE)\<close>
  | ErrStorage                \<comment> \<open>any other fault of the database driver\<close>
  | ErrMoveRoot               \<comment> \<open>"cannot move root directory"\<close>
  | ErrMoveIntoItself         \<comment> \<open>"cannot move directory into itself"\<close>
  | ErrMoveIntoDescendant     \<comment> \<open>"cannot move directory into its descendant"\<close>
  | ErrDeleteRoot             \<comment> \<open>"cannot delete root directory"\<close>
  | ErrShareExpired           \<comment> \<open>"share expired"\<close>
  | ErrEmptyUpload            \<comment> \<open>"empty upload"\<close>
  | ErrUploadClosed           \<comment> \<open>"upload already closed"\<close>
  | ErrUploadCanceled         \<comment> \<open>"upload canceled"\<close>
  | ErrNoDocument             \<comment> \<open>"telegram upload returned no document"\<close>
  | ErrContext                \<comment> \<open>\<open>ctx.Err()\<close> of a cancelled request context\<close>
  | ErrTransfer               \<comment> \<open>an error returned by the Telegram client\<close>
  | ErrEOF                    \<comment> \<open>\<open>io.EOF\<close>\<close>
  | ErrInvalidSeek            \<comment> \<open>"invalid seek"\<close>
  | ErrNegativeSeek           \<comment> \<open>"negative seek"\<close>
  | ErrSeekBeyondEnd          \<comment> \<open>"seek beyond end"\<close>
  | ErrPanic                  \<comment> \<open>a run-time panic (nil dereference, index out of range)\<close>

section \<open>Shares\<close>

record Share =
  share_ID :: int
  share_FileID :: int
  share_Token :: string
  share_ExpiresAt :: "time option"
  share_Uses :: int
  share_CreatedAt :: time

text \<open>
  \<open>ValidateShare\<close>: the share is refused exactly when \<open>ExpiresAt.Valid\<close> and
  \<open>time.Now().UTC().After(ExpiresAt.Time)\<close>; \<open>After\<close> is strict.
\<close>

definition ValidateShare :: "time \<Rightarrow> Share \<Rightarrow> error option" where
  "ValidateShare now sh =
     (case share_ExpiresAt sh of
        Some t \<Rightarrow> if now > t then Some ErrShareExpired else None
      | None \<Rightarrow> None)"

section \<open>The store: rows and tables\<close>

text \<open>
  The rows of the SQLite tables \<open>directories\<close>, \<open>files\<close>, \<open>file_parts\<close> and \<open>shares\<close>, with
  the fields of the Go structs (each field name carries its struct as a prefix).
\<close>

record Directory =
  dir_ID :: int
  dir_UserID :: int
  dir_ParentID :: "int option"
  dir_Name :: string
  dir_CreatedAt :: time
  dir_UpdatedAt :: time

record File =
  file_ID :: int
  file_UserID :: int
  file_DirID :: int
  file_Name :: string
  file_FileID :: string
  file_FileUniqueID :: string
  file_Size :: int
  file_MimeType :: string
  file_CreatedAt :: time

record FilePart =
  part_ID :: int
  part_FileID :: int
  part_PartIndex :: int
  part_TelegramFileID :: string
  part_FileUniqueID :: string
  part_Size :: int
  part_CreatedAt :: time

record FilePartInput =
  in_PartIndex :: int
  in_TelegramFileID :: string
  in_FileUniqueID :: string
  in_Size :: int

text \<open>
  The database.  A table is the list of its rows in rowid order: a row is inserted at the
  end with the next value of the table's AUTOINCREMENT sequence, an UPDATE rewrites rows in
  place, a DELETE filters.  \<open>QueryRow\<close> of a SELECT without ORDER BY is the first row of the
  list that satisfies the WHERE clause.  The tables \<open>user_state\<close>, \<open>user_profiles\<close>,
  \<open>webdav_credentials\<close>, \<open>webdav_uploads\<close> and \<open>webdav_upload_parts\<close> are read by none of the
  functions below and are left out.
\<close>

record Store =
  users :: "int list"
  directories :: "Directory list"
  files :: "File list"
  file_parts :: "FilePart list"
  shares :: "Share list"
  seq_directories :: int
  seq_files :: int
  seq_file_parts :: int
  seq_shares :: int

text \<open>\<open>row.Scan\<close> of \<open>QueryRow\<close>: the first matching row, or \<open>sql.ErrNoRows\<close>.\<close>

definition first_row :: "('a \<Rightarrow> bool) \<Rightarrow> 'a list \<Rightarrow> error + 'a" where
  "first_row P rows = (case find P rows of None \<Rightarrow> Inl ErrNoRows | Some r \<Rightarrow> Inr r)"

definition GetDirByID :: "Store \<Rightarrow> int \<Rightarrow> int \<Rightarrow> error + Directory" where
  "GetDirByID s userID dirID =
     first_row (\<lambda>d. dir_ID d = dirID \<and> dir_UserID d = userID) (directories s)"

definition GetDirByName :: "Store \<Rightarrow> int \<Rightarrow> int \<Rightarrow> string \<Rightarrow> error + Directory" where
  "GetDirByName s userID parentID name =
     first_row (\<lambda>d. dir_UserID d = userID \<and> dir_ParentID d = Some parentID \<and> dir_Name d = name)
       (directories s)"

definition GetFileByID :: "Store \<Rightarrow> int \<Rightarrow> int \<Rightarrow> error + File" where
  "GetFileByID s userID fileID =
     first_row (\<lambda>f. file_ID f = fileID \<and> file_UserID f = userID) (files s)"

definition GetFileByName :: "Store \<Rightarrow> int \<Rightarrow> int \<Rightarrow> string \<Rightarrow> error + File" where
  "GetFileByName s userID dirID name =
     first_row (\<lambda>f. file_UserID f = userID \<and> file_DirID f = dirID \<and> file_Name f = name)
       (files s)"

text \<open>
  \<open>ListDirs\<close>, \<open>ListFiles\<close>: \<open>ORDER BY name\<close> under SQLite's BINARY collation, which compares
  the bytes of the names; \<open>ListFileParts\<close>: \<open>ORDER BY part_index\<close>.
\<close>

definition ListDirs :: "Store \<Rightarrow> int \<Rightarrow> int \<Rightarrow> Directory list" where
  "ListDirs s userID parentID =
     sort_key dir_Name
       (filter (\<lambda>d. dir_UserID d = userID \<and> dir_ParentID d = Some parentID) (directories s))"

definition ListFiles :: "Store \<Rightarrow> int \<Rightarrow> int \<Rightarrow> File list" where
  "ListFiles s userID dirID =
     sort_key file_Name
       (filter (\<lambda>f. file_UserID f = userID \<and> file_DirID f = dirID) (files s))"

definition ListFileParts :: "Store \<Rightarrow> int \<Rightarrow> FilePart list" where
  "ListFileParts s fileID =
     sort_key part_PartIndex (filter (\<lambda>p. part_FileID p = fileID) (file_parts s))"

definition ensureNameAvailable ::
  "Store \<Rightarrow> int \<Rightarrow> int \<Rightarrow> string \<Rightarrow> int \<Rightarrow> int \<Rightarrow> error option" where
  "ensureNameAvailable s userID parentID name excludeDirID excludeFileID =
     (case (case GetDirByName s userID parentID name of
              Inr dir \<Rightarrow>
                if excludeDirID = 0 \<or> dir_ID dir \<noteq> excludeDirID then Some ErrNameConflict
                else None
            | Inl err \<Rightarrow> if err \<noteq> ErrNoRows then Some err else None) of
        Some err \<Rightarrow> Some err
      | None \<Rightarrow>
          (case GetFileByName s userID parentID name of
             Inr file \<Rightarrow>
               if excludeFileID = 0 \<or> file_ID file \<noteq> excludeFileID then Some ErrNameConflict
               else None
           | Inl err \<Rightarrow> if err \<noteq> ErrNoRows then Some err else None))"

text \<open>
  \<open>EnsureUser\<close>: one transaction; \<open>INSERT OR IGNORE\<close> of the user, then the root directory
  is looked up and inserted (named "/") when there is none.
\<close>

definition EnsureUser :: "time \<Rightarrow> Store \<Rightarrow> int \<Rightarrow> (error + int) \<times> Store" where
  "EnsureUser now s userID =
     (let s1 = s\<lparr>users := (if userID \<in> set (users s) then users s else users s @ [userID])\<rparr>
      in case find (\<lambda>d. dir_UserID d = userID \<and> dir_ParentID d = None) (directories s1) of
           Some d \<Rightarrow> (Inr (dir_ID d), s1)
         | None \<Rightarrow>
             (let rootID = seq_directories s1 + 1
              in (Inr rootID,
                  s1\<lparr>directories := directories s1 @
                        [\<lparr>dir_ID = rootID, dir_UserID = userID, dir_ParentID = None,
                          dir_Name = ''/'', dir_CreatedAt = now, dir_UpdatedAt = now\<rparr>],
                     seq_directories := rootID\<rparr>)))"

definition GetRootDirID :: "time \<Rightarrow> Store \<Rightarrow> int \<Rightarrow> (error + int) \<times> Store" where
  "GetRootDirID now s userID =
     (case find (\<lambda>d. dir_UserID d = userID \<and> dir_ParentID d = None) (directories s) of
        Some d \<Rightarrow> (Inr (dir_ID d), s)
      | None \<Rightarrow> EnsureUser now s userID)"

text \<open>
  \<open>CreateDir\<close>.  The INSERT is refused by the foreign keys of \<open>directories\<close> (the schema
  sets \<open>foreign_keys\<close> on) when the user or the parent row does not exist.
\<close>

definition CreateDir ::
  "time \<Rightarrow> Store \<Rightarrow> int \<Rightarrow> int \<Rightarrow> string \<Rightarrow> (error + Directory) \<times> Store" where
  "CreateDir now s userID parentID name =
     (case ensureNameAvailable s userID parentID name 0 0 of
        Some err \<Rightarrow> (Inl err, s)
      | None \<Rightarrow>
          if \<not> (userID \<in> set (users s) \<and> parentID \<in> set (map dir_ID (directories s)))
          then (Inl ErrConstraint, s)
          else
            (let id = seq_directories s + 1;
                 s' = s\<lparr>directories := directories s @
                          [\<lparr>dir_ID = id, dir_UserID = userID, dir_ParentID = Some parentID,
                            dir_Name = name, dir_CreatedAt = now, dir_UpdatedAt = now\<rparr>],
                        seq_directories := id\<rparr>
             in (GetDirByID s' userID id, s')))"

definition RenameDir :: "time \<Rightarrow> Store \<Rightarrow> int \<Rightarrow> int \<Rightarrow> string \<Rightarrow> error option \<times> Store" where
  "RenameDir now s userID dirID name =
     (case GetDirByID s userID dirID of
        Inl err \<Rightarrow> (Some err, s)
      | Inr dir \<Rightarrow>
          (let parentID = (case dir_ParentID dir of Some p \<Rightarrow> p | None \<Rightarrow> 0)
           in case ensureNameAvailable s userID parentID name dirID 0 of
                Some err \<Rightarrow> (Some err, s)
              | None \<Rightarrow>
                  (let count = length (filter (\<lambda>d. dir_ID d = dirID \<and> dir_UserID d = userID)
                                 (directories s));
                       s' = s\<lparr>directories :=
                              map (\<lambda>d. if dir_ID d = dirID \<and> dir_UserID d = userID
                                        then d\<lparr>dir_Name := name, dir_UpdatedAt := now\<rparr> else d)
                                (directories s)\<rparr>
                   in if count = 0 then (Some ErrNoRows, s') else (None, s'))))"

subsection \<open>The recursive subtree query\<close>

text \<open>
  \<open>WITH RECURSIVE subtree(id) AS (SELECT id FROM directories WHERE id = ? AND user_id = ?
  UNION ALL SELECT d.id FROM directories d JOIN subtree s ON d.parent_id = s.id)\<close>.
  SQLite evaluates it with a queue: the rows of the initial SELECT are queued; then, until
  the queue is empty, the first row is taken out, added to the result, and the rows the
  recursive SELECT gives for it are queued.  UNION ALL removes no duplicate, so on a
  \<open>parent_id\<close> cycle the query does not end: that is the value \<open>None\<close>.
\<close>

definition child_ids :: "Directory list \<Rightarrow> int \<Rightarrow> int list" where
  "child_ids ds x = map dir_ID (filter (\<lambda>d. dir_ParentID d = Some x) ds)"

partial_function (option) subtree_rows ::
  "Directory list \<Rightarrow> int list \<Rightarrow> int list \<Rightarrow> int list option" where
  "subtree_rows ds queue out =
     (case queue of
        [] \<Rightarrow> Some out
      | x # rest \<Rightarrow> subtree_rows ds (rest @ child_ids ds x) (out @ [x]))"

declare subtree_rows.simps [code]

definition subtree :: "Store \<Rightarrow> int \<Rightarrow> int \<Rightarrow> int list option" where
  "subtree s dirID userID =
     subtree_rows (directories s)
       (map dir_ID (filter (\<lambda>d. dir_ID d = dirID \<and> dir_UserID d = userID) (directories s))) []"

text \<open>
  \<open>isDescendant\<close>: \<open>SELECT 1 FROM subtree WHERE id = ? LIMIT 1\<close>; \<open>sql.ErrNoRows\<close> is the
  answer \<open>false\<close>.
\<close>

definition isDescendant :: "Store \<Rightarrow> int \<Rightarrow> int \<Rightarrow> int \<Rightarrow> (error + bool) option" where
  "isDescendant s userID dirID targetID =
     map_option (\<lambda>ids. Inr (targetID \<in> set ids)) (subtree s dirID userID)"

text \<open>
  \<open>MoveDir\<close>.  The UPDATE is refused by the foreign key on \<open>parent_id\<close> when the new
  parent row does not exist.  \<open>None\<close>: the subtree query does not end.
\<close>

definition MoveDir ::
  "time \<Rightarrow> Store \<Rightarrow> int \<Rightarrow> int \<Rightarrow> int \<Rightarrow> (error option \<times> Store) option" where
  "MoveDir now s userID dirID newParentID =
     (case GetRootDirID now s userID of
        (Inl err, s1) \<Rightarrow> Some (Some err, s1)
      | (Inr rootID, s1) \<Rightarrow>
          if dirID = rootID then Some (Some ErrMoveRoot, s1)
          else if dirID = newParentID then Some (Some ErrMoveIntoItself, s1)
          else
            (case isDescendant s1 userID dirID newParentID of
               None \<Rightarrow> None
             | Some (Inl err) \<Rightarrow> Some (Some err, s1)
             | Some (Inr isDesc) \<Rightarrow>
                 if isDesc then Some (Some ErrMoveIntoDescendant, s1)
                 else
                   (case GetDirByID s1 userID dirID of
                      Inl err \<Rightarrow> Some (Some err, s1)
                    | Inr dir \<Rightarrow>
                        (case ensureNameAvailable s1 userID newParentID (dir_Name dir) dirID 0 of
                           Some err \<Rightarrow> Some (Some err, s1)
                         | None \<Rightarrow>
                             if newParentID \<notin> set (map dir_ID (directories s1))
                             then Some (Some ErrConstraint, s1)
                             else
                               (let count = length (filter (\<lambda>d. dir_ID d = dirID \<and>
                                              dir_UserID d = userID) (directories s1));
                                    s' = s1\<lparr>directories :=
                                           map (\<lambda>d. if dir_ID d = dirID \<and> dir_UserID d = userID
                                                     then d\<lparr>dir_ParentID := Some newParentID,
                                                            dir_UpdatedAt := now\<rparr>
                                                     else d)
                                             (directories s1)\<rparr>
                                in if count = 0 then Some (Some ErrNoRows, s')
                                   else Some (None, s'))))))"

subsection \<open>Deleting\<close>

text \<open>
  \<open>DELETE FROM files WHERE dir_id IN (...)\<close>: the foreign keys of \<open>file_parts\<close> and \<open>shares\<close>
  on \<open>files(id)\<close> are ON DELETE CASCADE.
\<close>

definition delete_files_in :: "int list \<Rightarrow> Store \<Rightarrow> Store" where
  "delete_files_in D s =
     (let gone = map file_ID (filter (\<lambda>f. file_DirID f \<in> set D) (files s))
      in s\<lparr>files := filter (\<lambda>f. file_DirID f \<notin> set D) (files s),
           file_parts := filter (\<lambda>p. part_FileID p \<notin> set gone) (file_parts s),
           shares := filter (\<lambda>sh. share_FileID sh \<notin> set gone) (shares s)\<rparr>)"

text \<open>
  \<open>DELETE FROM directories WHERE id IN (...)\<close>: the foreign key of \<open>files\<close> on
  \<open>directories(id)\<close> cascades.  So does the one of \<open>directories\<close> on \<open>parent_id\<close>; the
  list the statement is run with is the result of the subtree query, which holds every row
  whose parent it holds (lemma \<open>subtree_rows_closed\<close>), so that cascade finds no further row.
\<close>

definition delete_dirs_in :: "int list \<Rightarrow> Store \<Rightarrow> Store" where
  "delete_dirs_in D s =
     delete_files_in D (s\<lparr>directories := filter (\<lambda>d. dir_ID d \<notin> set D) (directories s)\<rparr>)"

text \<open>
  \<open>DeleteDirRecursive\<close> runs two statements on the connection pool, outside any
  transaction: the DELETE on \<open>files\<close>, then the DELETE on \<open>directories\<close>.  \<open>fault1\<close> and
  \<open>fault2\<close> are the driver's faults (if any) on the two statements: a statement that fails
  changes nothing, and what an earlier statement did stays.
\<close>

definition DeleteDirRecursive ::
  "time \<Rightarrow> error option \<Rightarrow> error option \<Rightarrow> Store \<Rightarrow> int \<Rightarrow> int
     \<Rightarrow> (error option \<times> Store) option" where
  "DeleteDirRecursive now fault1 fault2 s userID dirID =
     (case GetRootDirID now s userID of
        (Inl err, s1) \<Rightarrow> Some (Some err, s1)
      | (Inr rootID, s1) \<Rightarrow>
          if dirID = rootID then Some (Some ErrDeleteRoot, s1)
          else
            (case subtree s1 dirID userID of
               None \<Rightarrow> None
             | Some ids1 \<Rightarrow>
                 (case fault1 of
                    Some err \<Rightarrow> Some (Some err, s1)
                  | None \<Rightarrow>
                      (let s2 = delete_files_in ids1 s1
                       in case subtree s2 dirID userID of
                            None \<Rightarrow> None
                          | Some ids2 \<Rightarrow>
                              (case fault2 of
                                 Some err \<Rightarrow> Some (Some err, s2)
                               | None \<Rightarrow> Some (None, delete_dirs_in ids2 s2))))))"

definition DeleteFile :: "Store \<Rightarrow> int \<Rightarrow> int \<Rightarrow> error option \<times> Store" where
  "DeleteFile s userID fileID =
     (let gone = filter (\<lambda>f. file_ID f = fileID \<and> file_UserID f = userID) (files s);
          s' = s\<lparr>files := filter (\<lambda>f. \<not> (file_ID f = fileID \<and> file_UserID f = userID)) (files s),
                 file_parts := filter (\<lambda>p. part_FileID p \<notin> set (map file_ID gone)) (file_parts s),
                 shares := filter (\<lambda>sh. share_FileID sh \<notin> set (map file_ID gone)) (shares s)\<rparr>
      in if length gone = 0 then (Some ErrNoRows, s') else (None, s'))"

subsection \<open>Files and their parts\<close>

definition default_mime :: "string \<Rightarrow> string" where
  "default_mime mimeType = (if mimeType = [] then ''application/octet-stream'' else mimeType)"

definition insert_file ::
  "time \<Rightarrow> Store \<Rightarrow> int \<Rightarrow> int \<Rightarrow> string \<Rightarrow> string \<Rightarrow> string \<Rightarrow> int \<Rightarrow> string \<Rightarrow> Store" where
  "insert_file now s userID dirID name fileID fileUniqueID sz mimeType =
     s\<lparr>files := files s @
          [\<lparr>file_ID = seq_files s + 1, file_UserID = userID, file_DirID = dirID,
            file_Name = name, file_FileID = fileID, file_FileUniqueID = fileUniqueID,
            file_Size = sz, file_MimeType = mimeType, file_CreatedAt = now\<rparr>],
       seq_files := seq_files s + 1\<rparr>"

text \<open>
  \<open>CreateFile\<close>.  The INSERT is refused by the foreign keys of \<open>files\<close> when the user or the
  directory row does not exist.
\<close>

definition CreateFile ::
  "time \<Rightarrow> Store \<Rightarrow> int \<Rightarrow> int \<Rightarrow> string \<Rightarrow> string \<Rightarrow> string \<Rightarrow> int \<Rightarrow> string
     \<Rightarrow> (error + File) \<times> Store" where
  "CreateFile now s userID dirID name fileID fileUniqueID sz mimeType =
     (case ensureNameAvailable s userID dirID name 0 0 of
        Some err \<Rightarrow> (Inl err, s)
      | None \<Rightarrow>
          if \<not> (userID \<in> set (users s) \<and> dirID \<in> set (map dir_ID (directories s)))
          then (Inl ErrConstraint, s)
          else
            (let s' = insert_file now s userID dirID name fileID fileUniqueID sz
                        (default_mime mimeType)
             in (GetFileByID s' userID (seq_files s + 1), s')))"

text \<open>
  \<open>insertFilePartsTx\<close>, inside the caller's transaction.  \<open>fault k\<close> is the driver's fault (if
  any) on the \<open>k\<close>-th statement of the transaction; an INSERT is refused by the foreign key
  on \<open>file_id\<close> and by \<open>UNIQUE(file_id, part_index)\<close>.
\<close>

fun insertFilePartsTx ::
  "time \<Rightarrow> (nat \<Rightarrow> error option) \<Rightarrow> nat \<Rightarrow> Store \<Rightarrow> int \<Rightarrow> FilePartInput list \<Rightarrow> error + Store" where
  "insertFilePartsTx now fault k s fileID [] = Inr s"
| "insertFilePartsTx now fault k s fileID (part # parts) =
     (case fault k of
        Some err \<Rightarrow> Inl err
      | None \<Rightarrow>
          if \<not> (fileID \<in> set (map file_ID (files s)) \<and>
                (fileID, in_PartIndex part) \<notin>
                   set (map (\<lambda>p. (part_FileID p, part_PartIndex p)) (file_parts s)))
          then Inl ErrConstraint
          else insertFilePartsTx now fault (Suc k)
                 (s\<lparr>file_parts := file_parts s @
                       [\<lparr>part_ID = seq_file_parts s + 1, part_FileID = fileID,
                         part_PartIndex = in_PartIndex part,
                         part_TelegramFileID = in_TelegramFileID part,
                         part_FileUniqueID = in_FileUniqueID part,
                         part_Size = in_Size part, part_CreatedAt = now\<rparr>],
                    seq_file_parts := seq_file_parts s + 1\<rparr>)
                 fileID parts)"

text \<open>
  The transactions of \<open>CreateFileWithParts\<close> and \<open>ReplaceFileWithParts\<close>, from \<open>BeginTx\<close>
  to \<open>Commit\<close>.  Every error return between the two leaves the function through the
  deferred \<open>tx.Rollback()\<close>, so the transaction's outcome is either an error (\<open>Inl\<close>) or the
  store that its statements have built (\<open>Inr\<close>); \<open>in_tx\<close> is the store after the call:
  the one before the transaction on an error, the one built on a commit.
\<close>

definition in_tx :: "Store \<Rightarrow> error + Store \<Rightarrow> error option \<times> Store" where
  "in_tx s r = (case r of Inl err \<Rightarrow> (Some err, s) | Inr s' \<Rightarrow> (None, s'))"

text \<open>
  The transaction of \<open>CreateFileWithParts\<close>: statement 0 is \<open>BeginTx\<close>, 1 the INSERT of the
  file, 2 onwards the INSERTs of the parts, \<open>2 + len(parts)\<close> is \<open>Commit\<close>.
\<close>

definition create_tx ::
  "time \<Rightarrow> (nat \<Rightarrow> error option) \<Rightarrow> Store \<Rightarrow> int \<Rightarrow> int \<Rightarrow> string \<Rightarrow> string \<Rightarrow> string \<Rightarrow> int
     \<Rightarrow> string \<Rightarrow> FilePartInput list \<Rightarrow> error + Store" where
  "create_tx now fault s userID dirID name fileID fileUniqueID sz mimeType parts =
     (case fault 0 of
        Some err \<Rightarrow> Inl err
      | None \<Rightarrow>
          (case fault 1 of
             Some err \<Rightarrow> Inl err
           | None \<Rightarrow>
               if \<not> (userID \<in> set (users s) \<and> dirID \<in> set (map dir_ID (directories s)))
               then Inl ErrConstraint
               else
                 (let fileRowID = seq_files s + 1;
                      s1 = insert_file now s userID dirID name fileID fileUniqueID sz mimeType
                  in case (if length parts > 1
                           then insertFilePartsTx now fault 2 s1 fileRowID parts
                           else Inr s1) of
                       Inl err \<Rightarrow> Inl err
                     | Inr s2 \<Rightarrow>
                         (case fault (2 + length parts) of
                            Some err \<Rightarrow> Inl err
                          | None \<Rightarrow> Inr s2))))"

text \<open>
  \<open>CreateFileWithParts\<close>: the name check, the transaction, then the new row is read back
  (its identifier is the next of the sequence of \<open>files\<close>).
\<close>

definition CreateFileWithParts ::
  "time \<Rightarrow> (nat \<Rightarrow> error option) \<Rightarrow> Store \<Rightarrow> int \<Rightarrow> int \<Rightarrow> string \<Rightarrow> string \<Rightarrow> string \<Rightarrow> int
     \<Rightarrow> string \<Rightarrow> FilePartInput list \<Rightarrow> (error + File) \<times> Store" where
  "CreateFileWithParts now fault s userID dirID name fileID fileUniqueID sz mimeType parts =
     (case ensureNameAvailable s userID dirID name 0 0 of
        Some err \<Rightarrow> (Inl err, s)
      | None \<Rightarrow>
          (case in_tx s (create_tx now fault s userID dirID name fileID fileUniqueID sz
                          (default_mime mimeType) parts) of
             (Some err, s') \<Rightarrow> (Inl err, s')
           | (None, s') \<Rightarrow> (GetFileByID s' userID (seq_files s + 1), s')))"

text \<open>
  The transaction of \<open>ReplaceFileWithParts\<close>: statement 0 is \<open>BeginTx\<close>, 1 the UPDATE of
  the file row, 2 the DELETE of its parts, 3 onwards the INSERTs of the new parts,
  \<open>3 + len(parts)\<close> is \<open>Commit\<close>.
\<close>

definition replace_tx ::
  "time \<Rightarrow> (nat \<Rightarrow> error option) \<Rightarrow> Store \<Rightarrow> int \<Rightarrow> int \<Rightarrow> string \<Rightarrow> string \<Rightarrow> string \<Rightarrow> int
     \<Rightarrow> string \<Rightarrow> FilePartInput list \<Rightarrow> error + Store" where
  "replace_tx now fault s userID fileID name telegramFileID fileUniqueID sz mimeType parts =
     (case fault 0 of
        Some err \<Rightarrow> Inl err
      | None \<Rightarrow>
          (case fault 1 of
             Some err \<Rightarrow> Inl err
           | None \<Rightarrow>
               (let affected = length (filter (\<lambda>f. file_ID f = fileID \<and> file_UserID f = userID)
                                 (files s));
                    s1 = s\<lparr>files :=
                           map (\<lambda>f. if file_ID f = fileID \<and> file_UserID f = userID
                                     then f\<lparr>file_Name := name, file_FileID := telegramFileID,
                                            file_FileUniqueID := fileUniqueID,
                                            file_Size := sz, file_MimeType := mimeType\<rparr>
                                     else f)
                             (files s)\<rparr>
                in if affected = 0 then Inl ErrNoRows
                   else
                     (case fault 2 of
                        Some err \<Rightarrow> Inl err
                      | None \<Rightarrow>
                          (let s2 = s1\<lparr>file_parts :=
                                      filter (\<lambda>p. part_FileID p \<noteq> fileID) (file_parts s1)\<rparr>
                           in case (if length parts > 1
                                    then insertFilePartsTx now fault 3 s2 fileID parts
                                    else Inr s2) of
                                Inl err \<Rightarrow> Inl err
                              | Inr s3 \<Rightarrow>
                                  (case fault (3 + length parts) of
                                     Some err \<Rightarrow> Inl err
                                   | None \<Rightarrow> Inr s3))))))"

definition ReplaceFileWithParts ::
  "time \<Rightarrow> (nat \<Rightarrow> error option) \<Rightarrow> Store \<Rightarrow> int \<Rightarrow> int \<Rightarrow> string \<Rightarrow> string \<Rightarrow> string \<Rightarrow> int
     \<Rightarrow> string \<Rightarrow> FilePartInput list \<Rightarrow> error option \<times> Store" where
  "ReplaceFileWithParts now fault s userID fileID name telegramFileID fileUniqueID sz mimeType
       parts =
     (case GetFileByID s userID fileID of
        Inl err \<Rightarrow> (Some err, s)
      | Inr file \<Rightarrow>
          (case ensureNameAvailable s userID (file_DirID file) name 0 fileID of
             Some err \<Rightarrow> (Some err, s)
           | None \<Rightarrow>
               in_tx s (replace_tx now fault s userID fileID name telegramFileID fileUniqueID sz
                          (default_mime mimeType) parts)))"

definition RenameFile :: "Store \<Rightarrow> int \<Rightarrow> int \<Rightarrow> string \<Rightarrow> error option \<times> Store" where
  "RenameFile s userID fileID name =
     (case GetFileByID s userID fileID of
        Inl err \<Rightarrow> (Some err, s)
      | Inr file \<Rightarrow>
          (case ensureNameAvailable s userID (file_DirID file) name 0 fileID of
             Some err \<Rightarrow> (Some err, s)
           | None \<Rightarrow>
               (let count = length (filter (\<lambda>f. file_ID f = fileID \<and> file_UserID f = userID)
                              (files s));
                    s' = s\<lparr>files := map (\<lambda>f. if file_ID f = fileID \<and> file_UserID f = userID
                                              then f\<lparr>file_Name := name\<rparr> else f) (files s)\<rparr>
                in if count = 0 then (Some ErrNoRows, s') else (None, s'))))"

text \<open>
  \<open>MoveFile\<close>.  The UPDATE is refused by the foreign key on \<open>dir_id\<close> when the new directory
  row does not exist.
\<close>

definition MoveFile :: "Store \<Rightarrow> int \<Rightarrow> int \<Rightarrow> int \<Rightarrow> error option \<times> Store" where
  "MoveFile s userID fileID newDirID =
     (case GetFileByID s userID fileID of
        Inl err \<Rightarrow> (Some err, s)
      | Inr file \<Rightarrow>
          (case ensureNameAvailable s userID newDirID (file_Name file) 0 fileID of
             Some err \<Rightarrow> (Some err, s)
           | None \<Rightarrow>
               if newDirID \<notin> set (map dir_ID (directories s)) then (Some ErrConstraint, s)
               else
                 (let count = length (filter (\<lambda>f. file_ID f = fileID \<and> file_UserID f = userID)
                                (files s));
                      s' = s\<lparr>files := map (\<lambda>f. if file_ID f = fileID \<and> file_UserID f = userID
                                                then f\<lparr>file_DirID := newDirID\<rparr> else f) (files s)\<rparr>
                  in if count = 0 then (Some ErrNoRows, s') else (None, s'))))"


subsection \<open>Names and descendants\<close>

text \<open>
  \<open>name_taken\<close>: some row of the owner under the parent (a directory other than \<open>exclDir\<close>, or
  a file other than \<open>exclFile\<close>) has the name.  Names are compared as byte strings.
\<close>

definition name_taken :: "Store \<Rightarrow> int \<Rightarrow> int \<Rightarrow> string \<Rightarrow> int option \<Rightarrow> int option \<Rightarrow> bool" where
  "name_taken s userID parentID name exclDir exclFile =
     ((\<exists>d \<in> set (directories s). dir_UserID d = userID \<and> dir_ParentID d = Some parentID \<and>
          dir_Name d = name \<and> Some (dir_ID d) \<noteq> exclDir)
      \<or> (\<exists>f \<in> set (files s). file_UserID f = userID \<and> file_DirID f = parentID \<and>
          file_Name f = name \<and> Some (file_ID f) \<noteq> exclFile))"

text \<open>
  The namespace invariant of the tree: no two rows (directories and files together) of one
  owner under one parent have the same name; for the rows without parent, no owner has two
  roots of one name.
\<close>

definition names_unique :: "Store \<Rightarrow> bool" where
  "names_unique s =
     distinct (map (\<lambda>d. (dir_UserID d, dir_ParentID d, dir_Name d)) (directories s) @
               map (\<lambda>f. (file_UserID f, Some (file_DirID f), file_Name f)) (files s))"

text \<open>
  \<open>level ds k q\<close>: the directories \<open>k\<close> levels below the directories \<open>q\<close>, following
  \<open>parent_id\<close> downwards; \<open>level ds k [d]\<close> are the descendants of \<open>d\<close> at depth \<open>k\<close> (\<open>d\<close> itself
  at depth 0).  \<open>below ds n d\<close>: \<open>d\<close> and its descendants down to depth \<open>n - 1\<close>.
\<close>

primrec level :: "Directory list \<Rightarrow> nat \<Rightarrow> int list \<Rightarrow> int list" where
  "level ds 0 q = q"
| "level ds (Suc k) q = level ds k (concat (map (child_ids ds) q))"

definition below :: "Directory list \<Rightarrow> nat \<Rightarrow> int list \<Rightarrow> int list" where
  "below ds n q = concat (map (\<lambda>k. level ds k q) [0..<n])"

text \<open>The primary keys: no two rows of \<open>directories\<close>, and no two rows of \<open>files\<close>, have the same \<open>id\<close>.\<close>

definition keys_unique :: "Store \<Rightarrow> bool" where
  "keys_unique s = (distinct (map dir_ID (directories s)) \<and> distinct (map file_ID (files s)))"

text \<open>The owner has a root directory: \<open>GetRootDirID\<close> finds it and creates nothing.\<close>

definition has_root :: "Store \<Rightarrow> int \<Rightarrow> bool" where
  "has_root s userID =
     (find (\<lambda>d. dir_UserID d = userID \<and> dir_ParentID d = None) (directories s) \<noteq> None)"

text \<open>
  \<open>descendant ds a b\<close>: directory \<open>b\<close> is a descendant of directory \<open>a\<close>, at any depth: a
  chain of \<open>parent_id\<close> links leads from \<open>b\<close> up to \<open>a\<close>.
\<close>

inductive descendant :: "Directory list \<Rightarrow> int \<Rightarrow> int \<Rightarrow> bool" for ds :: "Directory list" where
  child: "x \<in> set ds \<Longrightarrow> dir_ParentID x = Some a \<Longrightarrow> dir_ID x = b \<Longrightarrow> descendant ds a b"
| deeper: "descendant ds a c \<Longrightarrow> x \<in> set ds \<Longrightarrow> dir_ParentID x = Some c \<Longrightarrow> dir_ID x = b
            \<Longrightarrow> descendant ds a b"

section \<open>The upload stream\<close>

text \<open>
  \<open>uploadFile\<close> relays the bytes written to it through a pipe to a task that uploads them
  as one document; at most one part is open at a time.  The model is sequential.  The bytes a
  part's pipe has accepted are kept with the part (\<open>up_piped\<close>), and the outcome of the
  part's transfer, which the code receives on the channel \<open>done\<close> in \<open>finishPart\<close>, is the
  function \<open>tg\<close> of the file name the transfer was started with and of those bytes:
  \<open>tg\<close> stands for \<open>telegram.Client.UploadDocument\<close> and the remote service.  A
  \<open>pipeW.Write\<close> accepts all the bytes it is given.  \<open>uf_ctxErr\<close> is \<open>ctx.Err()\<close>; the
  cancellation of the context is seen where the code reads \<open>ctx.Err()\<close> or the flag
  \<open>aborted\<close>.  \<open>uf_sent\<close> lists the documents the remote store holds from this upload, in
  the order of their transfer: the reference issued and the bytes received.
\<close>

record Document =
  doc_FileID :: string
  doc_FileUniqueID :: string
  doc_FileName :: string
  doc_MimeType :: string
  doc_FileSize :: int

record Message =
  msg_Document :: "Document option"

record uploadResult =
  res_msg :: "Message option"
  res_err :: "error option"

record uploadPart =
  up_index :: int
  up_size :: int
  up_filename :: string
  up_piped :: "byte list"

record uploadFile =
  uf_ownerID :: int
  uf_storageChatID :: int
  uf_parentDirID :: int
  uf_name :: string
  uf_existing :: "File option"
  uf_maxPartSize :: int
  uf_splitFromStart :: bool
  uf_partIndex :: int
  uf_totalSize :: int
  uf_parts :: "FilePartInput list"
  uf_mimeType :: string
  uf_current :: "uploadPart option"
  uf_closed :: bool
  uf_aborted :: bool
  uf_abortErr :: "error option"
  uf_ctxErr :: "error option"
  uf_sent :: "(string \<times> byte list) list"

definition newUploadFile ::
  "int \<Rightarrow> int \<Rightarrow> int \<Rightarrow> string \<Rightarrow> File option \<Rightarrow> int \<Rightarrow> int \<Rightarrow> uploadFile" where
  "newUploadFile ownerID storageChatID parentDirID name existing maxPartSize contentLength =
     (let maxPartSize' = (if maxPartSize \<le> 0 then 1900 * 1024 * 1024 else maxPartSize)
      in \<lparr>uf_ownerID = ownerID, uf_storageChatID = storageChatID, uf_parentDirID = parentDirID,
          uf_name = name, uf_existing = existing, uf_maxPartSize = maxPartSize',
          uf_splitFromStart = (contentLength > maxPartSize'), uf_partIndex = 0,
          uf_totalSize = 0, uf_parts = [], uf_mimeType = [], uf_current = None,
          uf_closed = False, uf_aborted = False, uf_abortErr = None, uf_ctxErr = None,
          uf_sent = []\<rparr>)"

definition abortLocked :: "uploadFile \<Rightarrow> error option \<Rightarrow> uploadFile" where
  "abortLocked f err =
     (if uf_aborted f then f
      else f\<lparr>uf_aborted := True,
             uf_abortErr := Some (case err of None \<Rightarrow> ErrUploadCanceled | Some e \<Rightarrow> e)\<rparr>)"

text \<open>\<open>fmt.Sprintf("%03d", n)\<close> for \<open>n \<ge> 0\<close>: the decimal digits, padded with zeros to width 3.\<close>

fun decimal :: "nat \<Rightarrow> string" where
  "decimal n =
     (if n < 10 then [char_of (48 + n)]
      else decimal (n div 10) @ [char_of (48 + n mod 10)])"

definition pad3 :: "nat \<Rightarrow> string" where
  "pad3 n = replicate (3 - length (decimal n)) (CHR ''0'') @ decimal n"

definition partFilename :: "uploadFile \<Rightarrow> int \<Rightarrow> string" where
  "partFilename f index =
     (if index = 0 \<and> \<not> uf_splitFromStart f then uf_name f
      else uf_name f @ ''.part'' @ pad3 (nat (index + 1)))"

definition startPartLocked :: "uploadFile \<Rightarrow> error option \<times> uploadFile" where
  "startPartLocked f =
     (if uf_aborted f then (uf_abortErr f, f)
      else case uf_ctxErr f of
             Some err \<Rightarrow> (Some err, abortLocked f (Some err))
           | None \<Rightarrow>
               (None, f\<lparr>uf_current :=
                          Some \<lparr>up_index = uf_partIndex f, up_size = 0,
                                 up_filename = partFilename f (uf_partIndex f),
                                 up_piped = []\<rparr>\<rparr>))"

text \<open>
  \<open>finishPart\<close>: closes the pipe, waits for the transfer's result \<open>res\<close>, and records the
  part.
\<close>

definition finishPart ::
  "(string \<Rightarrow> byte list \<Rightarrow> uploadResult) \<Rightarrow> uploadFile \<Rightarrow> error option \<times> uploadFile" where
  "finishPart tg f =
     (case uf_current f of
        None \<Rightarrow> (None, f)
      | Some part \<Rightarrow>
          (let res = tg (up_filename part) (up_piped part);
               f1 = f\<lparr>uf_current := None\<rparr>
           in case res_err res of
                Some err \<Rightarrow> (Some err, abortLocked f1 (Some err))
              | None \<Rightarrow>
                  (case (case res_msg res of None \<Rightarrow> None | Some m \<Rightarrow> msg_Document m) of
                     None \<Rightarrow> (Some ErrNoDocument, abortLocked f1 (Some ErrNoDocument))
                   | Some doc \<Rightarrow>
                       (let sz = (if doc_FileSize doc = 0 then up_size part
                                  else doc_FileSize doc)
                        in (None,
                            f1\<lparr>uf_parts := uf_parts f1 @
                                  [\<lparr>in_PartIndex = up_index part,
                                    in_TelegramFileID = doc_FileID doc,
                                    in_FileUniqueID = doc_FileUniqueID doc,
                                    in_Size = sz\<rparr>],
                               uf_mimeType :=
                                 (if uf_mimeType f1 = [] \<and> doc_MimeType doc \<noteq> []
                                  then doc_MimeType doc else uf_mimeType f1),
                               uf_partIndex := uf_partIndex f1 + 1,
                               uf_sent := uf_sent f1 @ [(doc_FileID doc, up_piped part)]\<rparr>)))))"

text \<open>
  \<open>Write\<close>: the loop \<open>for len(p) > 0\<close> with the count \<open>written\<close>.  The result is the pair
  \<open>(written, err)\<close> and the stream afterwards; \<open>None\<close> is a loop that never ends (the code
  has one when \<open>maxPartSize\<close> is not positive and every empty part is accepted).
\<close>

text \<open>
  \<open>toWrite := int64(len(p)); if toWrite > remaining { toWrite = remaining }\<close>, and the
  \<open>n\<close> that \<open>pipeW.Write(p[:int(toWrite)])\<close> returns.
\<close>

definition toWrite :: "byte list \<Rightarrow> int \<Rightarrow> nat" where
  "toWrite p remaining =
     nat (if int (length p) > remaining then remaining else int (length p))"

definition abort_error :: "uploadFile \<Rightarrow> error" where
  "abort_error f = (case uf_abortErr f of None \<Rightarrow> ErrUploadCanceled | Some e \<Rightarrow> e)"

partial_function (option) Write_loop ::
  "(string \<Rightarrow> byte list \<Rightarrow> uploadResult) \<Rightarrow> uploadFile \<Rightarrow> nat \<Rightarrow> byte list
     \<Rightarrow> ((nat \<times> error option) \<times> uploadFile) option" where
  "Write_loop tg f written p =
     (if p = [] then Some ((written, None), f)
      else if uf_closed f then Some ((written, Some ErrUploadClosed), f)
      else
        (let f1 = (case uf_ctxErr f of Some err \<Rightarrow> abortLocked f (Some err) | None \<Rightarrow> f)
         in if uf_aborted f1 then Some ((written, Some (abort_error f1)), f1)
            else
              (case (if uf_current f1 = None then startPartLocked f1 else (None, f1)) of
                 (Some err, f2) \<Rightarrow> Some ((written, Some err), f2)
               | (None, f2) \<Rightarrow>
                   (case uf_current f2 of
                      None \<Rightarrow> Some ((written, Some ErrPanic), f2)
                    | Some cur \<Rightarrow>
                        (let remaining = uf_maxPartSize f2 - up_size cur
                         in if remaining \<le> 0 then
                              (case finishPart tg f2 of
                                 (Some err, f3) \<Rightarrow> Some ((written, Some err), f3)
                               | (None, f3) \<Rightarrow> Write_loop tg f3 written p)
                            else
                              (let n = toWrite p remaining;
                                   f3 = f2\<lparr>uf_current :=
                                             Some (cur\<lparr>up_size := up_size cur + int n,
                                                        up_piped := up_piped cur @ take n p\<rparr>),
                                           uf_totalSize := uf_totalSize f2 + int n\<rparr>;
                                   needFinish =
                                     (case uf_current f3 of
                                        None \<Rightarrow> False
                                      | Some c \<Rightarrow> up_size c \<ge> uf_maxPartSize f3)
                               in if needFinish then
                                    (case finishPart tg f3 of
                                       (Some err, f4) \<Rightarrow> Some ((written + n, Some err), f4)
                                     | (None, f4) \<Rightarrow> Write_loop tg f4 (written + n) (drop n p))
                                  else Write_loop tg f3 (written + n) (drop n p)))))))"

declare Write_loop.simps [code]

definition Write ::
  "(string \<Rightarrow> byte list \<Rightarrow> uploadResult) \<Rightarrow> uploadFile \<Rightarrow> byte list
     \<Rightarrow> ((nat \<times> error option) \<times> uploadFile) option" where
  "Write tg f p = Write_loop tg f 0 p"

text \<open>
  The client of the stream: it writes the chunks in order and stops at the first \<open>Write\<close>
  that returns an error (\<open>Inl\<close>, with the stream as that call left it).
\<close>

fun Write_chunks ::
  "(string \<Rightarrow> byte list \<Rightarrow> uploadResult) \<Rightarrow> uploadFile \<Rightarrow> byte list list
     \<Rightarrow> (error \<times> uploadFile + uploadFile) option" where
  "Write_chunks tg f [] = Some (Inr f)"
| "Write_chunks tg f (p # ps) =
     (case Write tg f p of
        None \<Rightarrow> None
      | Some ((n, Some err), f') \<Rightarrow> Some (Inl (err, f'))
      | Some ((n, None), f') \<Rightarrow> Write_chunks tg f' ps)"

text \<open>
  \<open>Close\<close>, on the store \<open>st\<close>.  \<open>fault\<close> is the driver's fault (if any) on the statements of
  the transaction that \<open>CreateFileWithParts\<close> or \<open>ReplaceFileWithParts\<close> runs.
\<close>

definition Close ::
  "(string \<Rightarrow> byte list \<Rightarrow> uploadResult) \<Rightarrow> time \<Rightarrow> (nat \<Rightarrow> error option) \<Rightarrow> Store
     \<Rightarrow> uploadFile \<Rightarrow> error option \<times> uploadFile \<times> Store" where
  "Close tg now fault st f =
     (if uf_closed f then (None, f, st)
      else
        (let f1 = f\<lparr>uf_closed := True\<rparr>
         in if uf_aborted f1 then (Some (abort_error f1), f1, st)
            else
              (case finishPart tg f1 of
                 (Some err, f2) \<Rightarrow> (Some err, f2, st)
               | (None, f2) \<Rightarrow>
                   (case uf_parts f2 of
                      [] \<Rightarrow> (Some ErrEmptyUpload, f2, st)
                    | first # _ \<Rightarrow>
                        (case uf_existing f2 of
                           Some existing \<Rightarrow>
                             (case ReplaceFileWithParts now fault st (uf_ownerID f2)
                                     (file_ID existing) (uf_name f2) (in_TelegramFileID first)
                                     (in_FileUniqueID first) (uf_totalSize f2) (uf_mimeType f2)
                                     (uf_parts f2) of
                                (err, st') \<Rightarrow> (err, f2, st'))
                         | None \<Rightarrow>
                             if length (uf_parts f2) > 1 then
                               (case CreateFileWithParts now fault st (uf_ownerID f2)
                                       (uf_parentDirID f2) (uf_name f2) (in_TelegramFileID first)
                                       (in_FileUniqueID first) (uf_totalSize f2) (uf_mimeType f2)
                                       (uf_parts f2) of
                                  (Inl err, st') \<Rightarrow> (Some err, f2, st')
                                | (Inr _, st') \<Rightarrow> (None, f2, st'))
                             else
                               (case CreateFile now st (uf_ownerID f2) (uf_parentDirID f2)
                                       (uf_name f2) (in_TelegramFileID first)
                                       (in_FileUniqueID first) (uf_totalSize f2)
                                       (uf_mimeType f2) of
                                  (Inl err, st') \<Rightarrow> (Some err, f2, st')
                                | (Inr _, st') \<Rightarrow> (None, f2, st')))))))"

text \<open>
  A remote store that accepts every document: it issues the file name as the reference
  and confirms the number of bytes it received.
\<close>

definition tg_accept :: "string \<Rightarrow> byte list \<Rightarrow> uploadResult" where
  "tg_accept filename bs =
     \<lparr>res_msg = Some \<lparr>msg_Document =
          Some \<lparr>doc_FileID = filename, doc_FileUniqueID = ''u'' @ filename,
                doc_FileName = filename, doc_MimeType = ''application/pdf'',
                doc_FileSize = int (length bs)\<rparr>\<rparr>,
      res_err = None\<rparr>"

subsection \<open>The upload stream between two writes\<close>

text \<open>
  \<open>tg_ok\<close>: every transfer succeeds with a document.  \<open>upload_data\<close>: the bytes the stream
  has accepted so far, in order: those of the documents already transferred, then those of
  the open part.
\<close>

definition tg_ok :: "(string \<Rightarrow> byte list \<Rightarrow> uploadResult) \<Rightarrow> bool" where
  "tg_ok tg =
     (\<forall>filename bs. res_err (tg filename bs) = None \<and>
        (\<exists>m doc. res_msg (tg filename bs) = Some m \<and> msg_Document m = Some doc))"

definition upload_data :: "uploadFile \<Rightarrow> byte list" where
  "upload_data f =
     concat (map snd (uf_sent f)) @ (case uf_current f of None \<Rightarrow> [] | Some c \<Rightarrow> up_piped c)"

text \<open>
  The state of a stream that is neither closed nor aborted, between two calls of \<open>Write\<close>:
  the parts recorded so far are numbered from 0, each refers to the document transferred
  for it, each of these documents holds exactly \<open>maxPartSize\<close> bytes, and the open part (if
  any) holds at least one byte and fewer than \<open>maxPartSize\<close>.
\<close>

definition writing :: "uploadFile \<Rightarrow> bool" where
  "writing f =
     (0 < uf_maxPartSize f \<and> \<not> uf_closed f \<and> \<not> uf_aborted f \<and> uf_ctxErr f = None
      \<and> uf_partIndex f = int (length (uf_parts f))
      \<and> map in_PartIndex (uf_parts f) = map int [0..<length (uf_parts f)]
      \<and> map in_TelegramFileID (uf_parts f) = map fst (uf_sent f)
      \<and> list_all (\<lambda>b. int (length (snd b)) = uf_maxPartSize f) (uf_sent f)
      \<and> uf_totalSize f = int (length (upload_data f))
      \<and> (case uf_current f of
            None \<Rightarrow> True
          | Some c \<Rightarrow> up_index c = uf_partIndex f \<and> up_size c = int (length (up_piped c))
                      \<and> 0 < up_size c \<and> up_size c < uf_maxPartSize f))"

text \<open>The fields of a stream that say where the file goes.\<close>

definition same_target :: "uploadFile \<Rightarrow> uploadFile \<Rightarrow> bool" where
  "same_target f f' =
     (uf_ownerID f' = uf_ownerID f \<and> uf_storageChatID f' = uf_storageChatID f
      \<and> uf_parentDirID f' = uf_parentDirID f \<and> uf_name f' = uf_name f
      \<and> uf_existing f' = uf_existing f \<and> uf_maxPartSize f' = uf_maxPartSize f
      \<and> uf_splitFromStart f' = uf_splitFromStart f)"

text \<open>
  The rows that \<open>insertFilePartsTx\<close> adds to \<open>file_parts\<close> for the parts of file \<open>fileID\<close>,
  when \<open>seq\<close> is the last identifier the table has issued.
\<close>

fun part_rows :: "time \<Rightarrow> int \<Rightarrow> int \<Rightarrow> FilePartInput list \<Rightarrow> FilePart list" where
  "part_rows now fileID seq [] = []"
| "part_rows now fileID seq (part # parts) =
     \<lparr>part_ID = seq + 1, part_FileID = fileID, part_PartIndex = in_PartIndex part,
      part_TelegramFileID = in_TelegramFileID part, part_FileUniqueID = in_FileUniqueID part,
      part_Size = in_Size part, part_CreatedAt = now\<rparr> # part_rows now fileID (seq + 1) parts"

text \<open>Every row of \<open>file_parts\<close> belongs to a file identifier that \<open>files\<close> has issued.\<close>

definition parts_issued :: "Store \<Rightarrow> bool" where
  "parts_issued st = list_all (\<lambda>p. part_FileID p \<le> seq_files st) (file_parts st)"


text \<open>The file row after the UPDATE of \<open>ReplaceFileWithParts\<close>: its other fields are kept.\<close>

definition replaced_row :: "File \<Rightarrow> string \<Rightarrow> string \<Rightarrow> string \<Rightarrow> int \<Rightarrow> string \<Rightarrow> File" where
  "replaced_row f name telegramFileID fileUniqueID sz mimeType =
     f\<lparr>file_Name := name, file_FileID := telegramFileID, file_FileUniqueID := fileUniqueID,
       file_Size := sz, file_MimeType := default_mime mimeType\<rparr>"

section \<open>Directory listing of the WebDAV adapter\<close>

text \<open>
  \<open>davFileInfo\<close> is the \<open>os.FileInfo\<close> of the adapter; \<open>os.FileMode\<close> is a \<open>uint32\<close>, and
  \<open>os.ModeDir\<close> is its bit 31.  \<open>dirInfo\<close> gives the root (the directory without parent) the
  empty name.
\<close>

record davFileInfo =
  fi_name :: string
  fi_size :: int
  fi_mode :: "32 word"
  fi_modTime :: time
  fi_isDir :: bool

definition ModeDir :: "32 word" where
  "ModeDir = push_bit 31 1"

definition dirInfo :: "Directory \<Rightarrow> davFileInfo" where
  "dirInfo dir =
     (let name = (if dir_ParentID dir = None then [] else dir_Name dir)
      in \<lparr>fi_name = name, fi_size = 0, fi_mode = or ModeDir 493,
          fi_modTime = dir_UpdatedAt dir, fi_isDir = True\<rparr>)"

definition fileInfo :: "File \<Rightarrow> davFileInfo" where
  "fileInfo f =
     \<lparr>fi_name = file_Name f, fi_size = file_Size f, fi_mode = 420,
      fi_modTime = file_CreatedAt f, fi_isDir = False\<rparr>"

text \<open>
  \<open>dirFile\<close>, the handle of an open directory.  \<open>df_infos\<close> is the slice \<open>infos\<close>: it is
  \<open>nil\<close> until an entry has been appended to it, and \<open>nil\<close> is the empty list here (the code
  never makes an empty slice that is not \<open>nil\<close>).  \<open>wrap64\<close> is the value of an \<open>int\<close> sum
  on a 64-bit platform.
\<close>

record dirFile =
  df_userID :: int
  df_dirID :: int
  df_infos :: "davFileInfo list"
  df_pos :: int

definition newDirFile :: "int \<Rightarrow> int \<Rightarrow> dirFile" where
  "newDirFile userID dirID = \<lparr>df_userID = userID, df_dirID = dirID, df_infos = [], df_pos = 0\<rparr>"

definition wrap64 :: "int \<Rightarrow> int" where
  "wrap64 x = (x + 2 ^ 63) mod 2 ^ 64 - 2 ^ 63"

text \<open>
  \<open>Readdir\<close>.  The first call (and every call while the listing is empty) reads the child
  directories with \<open>ListDirs\<close> and the files with \<open>ListFiles\<close>; \<open>fault1\<close> and \<open>fault2\<close> are the
  errors these two queries meet, if any.  The entries of the directories are appended first,
  in the order \<open>ListDirs\<close> returns them, then the entries of the files, in the order
  \<open>ListFiles\<close> returns them.  The result is the slice returned, the error, and the handle.
  A slice expression whose end lies before its start panics.
\<close>

definition Readdir ::
  "error option \<Rightarrow> error option \<Rightarrow> Store \<Rightarrow> dirFile \<Rightarrow> int
     \<Rightarrow> (davFileInfo list \<times> error option) \<times> dirFile" where
  "Readdir fault1 fault2 s d count =
     (case (if df_infos d = [] then
              (case fault1 of
                 Some err \<Rightarrow> Inl err
               | None \<Rightarrow>
                   (case fault2 of
                      Some err \<Rightarrow> Inl err
                    | None \<Rightarrow>
                        Inr (d\<lparr>df_infos :=
                                 (df_infos d
                                    @ map dirInfo (ListDirs s (df_userID d) (df_dirID d)))
                                 @ map fileInfo (ListFiles s (df_userID d) (df_dirID d))\<rparr>)))
            else Inr d) of
        Inl err \<Rightarrow> (([], Some err), d)
      | Inr d1 \<Rightarrow>
          (let n = int (length (df_infos d1)) in
           if count \<le> 0 \<and> df_pos d1 \<ge> n then (([], None), d1)
           else if \<not> count \<le> 0 \<and> df_pos d1 \<ge> n then (([], Some ErrEOF), d1)
           else
             (let count' = (if count \<le> 0 then n - df_pos d1 else count);
                  end0 = wrap64 (df_pos d1 + count');
                  end = (if end0 > n then n else end0)
              in if end < df_pos d1 \<or> df_pos d1 < 0 then (([], Some ErrPanic), d1)
                 else ((take (nat (end - df_pos d1)) (drop (nat (df_pos d1)) (df_infos d1)),
                        None),
                       d1\<lparr>df_pos := end\<rparr>))))"

section \<open>A small store\<close>

text \<open>
  The tree of owner 1 that the instances below are computed on:
  \<^verbatim>\<open>
  /            (directory 1, the root)
    docs/      (directory 2)
      sub/     (directory 4)
      a.txt    (file 1, one blob, shared under the token "tok")
      b.txt    (file 2, two parts)
    pics/      (directory 3)
      docs/    (directory 5)
      a.txt    (file 3)
  \<close>
\<close>

definition store_ex :: Store where
  "store_ex =
     \<lparr>users = [1],
      directories =
        [\<lparr>dir_ID = 1, dir_UserID = 1, dir_ParentID = None, dir_Name = ''/'',
           dir_CreatedAt = 1, dir_UpdatedAt = 1\<rparr>,
         \<lparr>dir_ID = 2, dir_UserID = 1, dir_ParentID = Some 1, dir_Name = ''docs'',
           dir_CreatedAt = 2, dir_UpdatedAt = 2\<rparr>,
         \<lparr>dir_ID = 3, dir_UserID = 1, dir_ParentID = Some 1, dir_Name = ''pics'',
           dir_CreatedAt = 3, dir_UpdatedAt = 3\<rparr>,
         \<lparr>dir_ID = 4, dir_UserID = 1, dir_ParentID = Some 2, dir_Name = ''sub'',
           dir_CreatedAt = 4, dir_UpdatedAt = 4\<rparr>,
         \<lparr>dir_ID = 5, dir_UserID = 1, dir_ParentID = Some 3, dir_Name = ''docs'',
           dir_CreatedAt = 5, dir_UpdatedAt = 5\<rparr>],
      files =
        [\<lparr>file_ID = 1, file_UserID = 1, file_DirID = 2, file_Name = ''a.txt'',
           file_FileID = ''blobA'', file_FileUniqueID = ''uA'', file_Size = 10,
           file_MimeType = ''text/plain'', file_CreatedAt = 6\<rparr>,
         \<lparr>file_ID = 2, file_UserID = 1, file_DirID = 2, file_Name = ''b.txt'',
           file_FileID = ''blobB0'', file_FileUniqueID = ''uB0'', file_Size = 7,
           file_MimeType = ''text/plain'', file_CreatedAt = 7\<rparr>,
         \<lparr>file_ID = 3, file_UserID = 1, file_DirID = 3, file_Name = ''a.txt'',
           file_FileID = ''blobC'', file_FileUniqueID = ''uC'', file_Size = 3,
           file_MimeType = ''text/plain'', file_CreatedAt = 8\<rparr>],
      file_parts =
        [\<lparr>part_ID = 1, part_FileID = 2, part_PartIndex = 0, part_TelegramFileID = ''blobB0'',
           part_FileUniqueID = ''uB0'', part_Size = 4, part_CreatedAt = 7\<rparr>,
         \<lparr>part_ID = 2, part_FileID = 2, part_PartIndex = 1, part_TelegramFileID = ''blobB1'',
           part_FileUniqueID = ''uB1'', part_Size = 3, part_CreatedAt = 7\<rparr>],
      shares =
        [\<lparr>share_ID = 1, share_FileID = 1, share_Token = ''tok'', share_ExpiresAt = None,
           share_Uses = 0, share_CreatedAt = 9\<rparr>,
         \<lparr>share_ID = 2, share_FileID = 2, share_Token = ''tok2'', share_ExpiresAt = Some 100,
           share_Uses = 0, share_CreatedAt = 9\<rparr>],
      seq_directories = 5, seq_files = 3, seq_file_parts = 2, seq_shares = 2\<rparr>"

section \<open>Lemmas about the store\<close>


lemma first_row_Inr: "first_row P rows = Inr r \<Longrightarrow> r \<in> set rows \<and> P r"
  by (auto simp: first_row_def find_Some_iff split: option.splits)

lemma first_row_Inl: "first_row P rows = Inl e \<Longrightarrow> e = ErrNoRows \<and> (\<forall>r \<in> set rows. \<not> P r)"
  by (auto simp: first_row_def find_None_iff split: option.splits)

lemma first_row_ex: "r \<in> set rows \<Longrightarrow> P r \<Longrightarrow> \<exists>r'. first_row P rows = Inr r'"
  by (cases "find P rows") (auto simp: first_row_def find_None_iff)

lemma names_unique_dir:
  assumes "names_unique s" "a \<in> set (directories s)" "b \<in> set (directories s)"
    "dir_UserID a = dir_UserID b" "dir_ParentID a = dir_ParentID b" "dir_Name a = dir_Name b"
  shows "a = b"
proof -
  have "distinct (map (\<lambda>d. (dir_UserID d, dir_ParentID d, dir_Name d)) (directories s))"
    using assms(1) by (simp add: names_unique_def)
  then have "inj_on (\<lambda>d. (dir_UserID d, dir_ParentID d, dir_Name d)) (set (directories s))"
    by (simp add: distinct_map)
  then show ?thesis using assms(2-) by (auto dest: inj_onD)
qed

lemma names_unique_file:
  assumes "names_unique s" "a \<in> set (files s)" "b \<in> set (files s)"
    "file_UserID a = file_UserID b" "file_DirID a = file_DirID b" "file_Name a = file_Name b"
  shows "a = b"
proof -
  have "distinct (map (\<lambda>f. (file_UserID f, Some (file_DirID f), file_Name f)) (files s))"
    using assms(1) by (simp add: names_unique_def)
  then have "inj_on (\<lambda>f. (file_UserID f, Some (file_DirID f), file_Name f)) (set (files s))"
    by (simp add: distinct_map)
  then show ?thesis using assms(2-) by (auto dest: inj_onD)
qed

lemma ensure_conflict_dir:
  assumes "d \<in> set (directories s)" "dir_UserID d = u" "dir_ParentID d = Some p" "dir_Name d = n"
    and "xd = 0 \<or> (names_unique s \<and> dir_ID d \<noteq> xd)"
  shows "ensureNameAvailable s u p n xd xf = Some ErrNameConflict"
proof -
  obtain r where r: "GetDirByName s u p n = Inr r"
    using first_row_ex [of d "directories s"
        "\<lambda>d. dir_UserID d = u \<and> dir_ParentID d = Some p \<and> dir_Name d = n"] assms(1-4)
    by (auto simp: GetDirByName_def)
  then have rp: "r \<in> set (directories s)" "dir_UserID r = u" "dir_ParentID r = Some p" "dir_Name r = n"
    by (auto simp: GetDirByName_def dest: first_row_Inr)
  have "xd = 0 \<or> dir_ID r \<noteq> xd"
  proof (cases "xd = 0")
    case False
    then have "names_unique s" "dir_ID d \<noteq> xd" using assms(5) by auto
    moreover have "r = d" using names_unique_dir [of s r d] rp assms(1-4) \<open>names_unique s\<close> by simp
    ultimately show ?thesis by simp
  qed simp
  then show ?thesis using r by (auto simp: ensureNameAvailable_def)
qed

lemma ensure_conflict_file:
  assumes "f \<in> set (files s)" "file_UserID f = u" "file_DirID f = p" "file_Name f = n"
    and "xf = 0 \<or> (names_unique s \<and> file_ID f \<noteq> xf)"
    and "xd = 0 \<or> names_unique s"
  shows "ensureNameAvailable s u p n xd xf = Some ErrNameConflict"
proof -
  obtain r where r: "GetFileByName s u p n = Inr r"
    using first_row_ex [of f "files s"
        "\<lambda>f. file_UserID f = u \<and> file_DirID f = p \<and> file_Name f = n"] assms(1-4)
    by (auto simp: GetFileByName_def)
  then have rp: "r \<in> set (files s)" "file_UserID r = u" "file_DirID r = p" "file_Name r = n"
    by (auto simp: GetFileByName_def dest: first_row_Inr)
  have c: "xf = 0 \<or> file_ID r \<noteq> xf"
  proof (cases "xf = 0")
    case False
    then have "names_unique s" "file_ID f \<noteq> xf" using assms(5) by auto
    moreover have "r = f" using names_unique_file [of s r f] rp assms(1-4) \<open>names_unique s\<close> by simp
    ultimately show ?thesis by simp
  qed simp
  show ?thesis
  proof (cases "GetDirByName s u p n")
    case (Inl e)
    then have "e = ErrNoRows" by (auto simp: GetDirByName_def dest: first_row_Inl)
    then show ?thesis using Inl r c by (auto simp: ensureNameAvailable_def)
  next
    case (Inr d)
    then show ?thesis using r c by (auto simp: ensureNameAvailable_def)
  qed
qed


lemma subtree_rows_sweep:
  "subtree_rows ds (q @ pend) out = subtree_rows ds (pend @ concat (map (child_ids ds) q)) (out @ q)"
proof (induction q arbitrary: pend out)
  case Nil
  then show ?case by simp
next
  case (Cons x q)
  have "subtree_rows ds ((x # q) @ pend) out = subtree_rows ds (q @ (pend @ child_ids ds x)) (out @ [x])"
    by (subst subtree_rows.simps) simp
  also have "\<dots> = subtree_rows ds ((pend @ child_ids ds x) @ concat (map (child_ids ds) q)) ((out @ [x]) @ q)"
    by (rule Cons.IH)
  finally show ?case by simp
qed

lemma below_Suc: "below ds (Suc n) q = q @ below ds n (concat (map (child_ids ds) q))"
proof -
  have "[0..<Suc n] = 0 # map Suc [0..<n]"
    by (simp add: upt_conv_Cons map_Suc_upt del: upt_Suc)
  then show ?thesis by (simp add: below_def comp_def del: upt_Suc)
qed

lemma subtree_rows_ends:
  "level ds n q = [] \<Longrightarrow> subtree_rows ds q out = Some (out @ below ds n q)"
proof (induction n arbitrary: q out)
  case 0
  then show ?case by (subst subtree_rows.simps) (simp add: below_def)
next
  case (Suc n)
  have "subtree_rows ds q out = subtree_rows ds (concat (map (child_ids ds) q)) (out @ q)"
    using subtree_rows_sweep [of ds q "[]" out] by simp
  also have "\<dots> = Some ((out @ q) @ below ds n (concat (map (child_ids ds) q)))"
    using Suc.prems by (intro Suc.IH) simp
  finally show ?case by (simp add: below_Suc)
qed

lemma filter_key_single:
  "distinct (map f xs) \<Longrightarrow> x \<in> set xs \<Longrightarrow> Q x \<Longrightarrow> filter (\<lambda>y. f y = f x \<and> Q y) xs = [x]"
proof (induction xs)
  case Nil
  then show ?case by simp
next
  case (Cons a xs)
  show ?case
  proof (cases "a = x")
    case True
    have "filter (\<lambda>y. f y = f x \<and> Q y) xs = []"
      using Cons.prems(1) True by (auto simp: filter_empty_conv image_iff)
    then show ?thesis using True Cons.prems by simp
  next
    case False
    then have "x \<in> set xs" using Cons.prems by simp
    moreover have "f a \<noteq> f x" using Cons.prems(1) \<open>x \<in> set xs\<close> by auto
    ultimately show ?thesis using Cons by simp
  qed
qed

lemma subtree_owned:
  assumes "keys_unique s" "GetDirByID s u d = Inr row" "level (directories s) n [d] = []"
  shows "subtree s d u = Some (below (directories s) n [d])"
proof -
  have r: "row \<in> set (directories s)" "dir_ID row = d" "dir_UserID row = u"
    using assms(2) by (auto simp: GetDirByID_def dest: first_row_Inr)
  have "filter (\<lambda>y. dir_ID y = dir_ID row \<and> dir_UserID y = u) (directories s) = [row]"
    using filter_key_single [of dir_ID "directories s" row "\<lambda>y. dir_UserID y = u"] assms(1) r
    by (simp add: keys_unique_def)
  then show ?thesis
    using subtree_rows_ends [OF assms(3), of "[]"] r by (simp add: subtree_def)
qed


lemma name_taken_create:
  "name_taken s u p n None None \<Longrightarrow> ensureNameAvailable s u p n 0 0 = Some ErrNameConflict"
  unfolding name_taken_def
  using ensure_conflict_dir [of _ s u p n 0 0] ensure_conflict_file [of _ s u p n 0 0]
  by blast

lemma name_taken_dir:
  "names_unique s \<Longrightarrow> name_taken s u p n (Some d) None
     \<Longrightarrow> ensureNameAvailable s u p n d 0 = Some ErrNameConflict"
  unfolding name_taken_def
  using ensure_conflict_dir [of _ s u p n d 0] ensure_conflict_file [of _ s u p n 0 d]
  by auto

lemma name_taken_file:
  "names_unique s \<Longrightarrow> name_taken s u p n None (Some f)
     \<Longrightarrow> ensureNameAvailable s u p n 0 f = Some ErrNameConflict"
  unfolding name_taken_def
  using ensure_conflict_dir [of _ s u p n 0 f] ensure_conflict_file [of _ s u p n f 0]
  by auto

lemma CreateDir_conflict:
  "name_taken s u p n None None \<Longrightarrow> CreateDir now s u p n = (Inl ErrNameConflict, s)"
  by (simp add: CreateDir_def name_taken_create)

lemma CreateFile_conflict:
  "name_taken s u p n None None
     \<Longrightarrow> CreateFile now s u p n fid fuid sz mime = (Inl ErrNameConflict, s)"
  by (simp add: CreateFile_def name_taken_create)

lemma CreateFileWithParts_conflict:
  "name_taken s u p n None None
     \<Longrightarrow> CreateFileWithParts now fault s u p n fid fuid sz mime parts = (Inl ErrNameConflict, s)"
  by (simp add: CreateFileWithParts_def name_taken_create)

lemma RenameDir_conflict:
  "names_unique s \<Longrightarrow> GetDirByID s u d = Inr row \<Longrightarrow> dir_ParentID row = Some p
     \<Longrightarrow> name_taken s u p n (Some d) None
     \<Longrightarrow> RenameDir now s u d n = (Some ErrNameConflict, s)"
  by (simp add: RenameDir_def name_taken_dir)

lemma RenameFile_conflict:
  "names_unique s \<Longrightarrow> GetFileByID s u f = Inr row
     \<Longrightarrow> name_taken s u (file_DirID row) n None (Some f)
     \<Longrightarrow> RenameFile s u f n = (Some ErrNameConflict, s)"
  by (simp add: RenameFile_def name_taken_file)

lemma MoveFile_conflict:
  "names_unique s \<Longrightarrow> GetFileByID s u f = Inr row
     \<Longrightarrow> name_taken s u p (file_Name row) None (Some f)
     \<Longrightarrow> MoveFile s u f p = (Some ErrNameConflict, s)"
  by (simp add: MoveFile_def name_taken_file)

lemma has_root_GetRootDirID:
  "has_root s u \<Longrightarrow> \<exists>r. GetRootDirID now s u = (Inr (dir_ID r), s) \<and>
      find (\<lambda>d. dir_UserID d = u \<and> dir_ParentID d = None) (directories s) = Some r"
  by (auto simp: has_root_def GetRootDirID_def)

lemma MoveDir_conflict:
  assumes "names_unique s" "keys_unique s" "has_root s u"
    and "GetDirByID s u d = Inr row" "dir_ParentID row \<noteq> None" "d \<noteq> p"
    and "level (directories s) k [d] = []" "p \<notin> set (below (directories s) k [d])"
    and "name_taken s u p (dir_Name row) (Some d) None"
  shows "MoveDir now s u d p = Some (Some ErrNameConflict, s)"
proof -
  obtain r where r: "GetRootDirID now s u = (Inr (dir_ID r), s)"
      "find (\<lambda>d. dir_UserID d = u \<and> dir_ParentID d = None) (directories s) = Some r"
    using has_root_GetRootDirID [OF assms(3)] by blast
  have rr: "r \<in> set (directories s)" "dir_UserID r = u" "dir_ParentID r = None"
    using r(2) by (auto simp: find_Some_iff)
  have row: "row \<in> set (directories s)" "dir_ID row = d" "dir_UserID row = u"
    using assms(4) by (auto simp: GetDirByID_def dest: first_row_Inr)
  have "d \<noteq> dir_ID r"
  proof
    assume "d = dir_ID r"
    then have "row = r"
      using assms(2) row rr(1) by (auto simp: keys_unique_def distinct_map dest: inj_onD)
    then show False using assms(5) rr(3) by simp
  qed
  moreover have "isDescendant s u d p = Some (Inr False)"
    using subtree_owned [OF assms(2) assms(4) assms(7)] assms(8) by (simp add: isDescendant_def)
  ultimately show ?thesis
    using r(1) assms(4,6) name_taken_dir [OF assms(1) assms(9)] by (simp add: MoveDir_def)
qed



lemma level_Nil: "level ds k [] = []"
  by (induction k) simp_all

lemma level_add: "level ds (a + b) q = level ds b (level ds a q)"
  by (induction a arbitrary: q) simp_all

lemma level_Suc_end: "level ds (Suc k) q = concat (map (child_ids ds) (level ds k q))"
  using level_add [of ds k 1 q] by simp

lemma level_in_below:
  assumes "level ds n q = []" "p \<in> set (level ds k q)"
  shows "p \<in> set (below ds n q)"
proof -
  have "k < n"
  proof (rule ccontr)
    assume "\<not> k < n"
    then obtain j where "k = n + j" using le_Suc_ex [of n k] by auto
    then have "level ds k q = []" using assms(1) by (simp add: level_add level_Nil)
    then show False using assms(2) by simp
  qed
  then show ?thesis using assms(2) by (auto simp: below_def)
qed

lemma child_in_child_ids:
  "x \<in> set ds \<Longrightarrow> dir_ParentID x = Some a \<Longrightarrow> dir_ID x \<in> set (child_ids ds a)"
  by (auto simp: child_ids_def)

lemma descendant_level: "descendant ds a b \<Longrightarrow> \<exists>k. b \<in> set (level ds (Suc k) [a])"
proof (induction rule: descendant.induct)
  case (child x a b)
  then have "b \<in> set (level ds (Suc 0) [a])" by (auto simp: child_in_child_ids)
  then show ?case by blast
next
  case (deeper a c x b)
  then obtain k where "c \<in> set (level ds (Suc k) [a])" by blast
  then have "b \<in> set (level ds (Suc (Suc k)) [a])"
    using deeper.hyps(2,3,4) child_in_child_ids [of x ds c]
    by (subst level_Suc_end) auto
  then show ?case by blast
qed

lemma child_ids_append_root:
  "dir_ParentID r = None \<Longrightarrow> child_ids (ds @ [r]) = child_ids ds"
  by (auto simp: child_ids_def fun_eq_iff)

lemma level_append_root:
  "dir_ParentID r = None \<Longrightarrow> level (ds @ [r]) k q = level ds k q"
  by (induction k arbitrary: q) (simp_all add: child_ids_append_root)

lemma below_append_root:
  "dir_ParentID r = None \<Longrightarrow> below (ds @ [r]) n q = below ds n q"
  by (simp add: below_def level_append_root)

text \<open>What GetRootDirID does to the store: nothing, or it adds the owner and a root row.\<close>

lemma GetRootDirID_cases:
  obtains (found) r where "GetRootDirID now s u = (Inr (dir_ID r), s)"
      "find (\<lambda>d. dir_UserID d = u \<and> dir_ParentID d = None) (directories s) = Some r"
  | (created) r us where "GetRootDirID now s u =
        (Inr (dir_ID r), s\<lparr>users := us, directories := directories s @ [r], seq_directories := dir_ID r\<rparr>)"
      "dir_ParentID r = None" "dir_UserID r = u" "\<not> has_root s u"
proof (cases "find (\<lambda>d. dir_UserID d = u \<and> dir_ParentID d = None) (directories s)")
  case None
  then show ?thesis
    by (intro created [of "\<lparr>dir_ID = seq_directories s + 1, dir_UserID = u, dir_ParentID = None,
            dir_Name = ''/'', dir_CreatedAt = now, dir_UpdatedAt = now\<rparr>"
          "if u \<in> set (users s) then users s else users s @ [u]"])
       (simp_all add: GetRootDirID_def EnsureUser_def Let_def has_root_def)
next
  case (Some r)
  then show ?thesis by (intro found [of r]) (simp_all add: GetRootDirID_def)
qed

lemma find_append_Some: "find P xs = Some x \<Longrightarrow> find P (xs @ ys) = Some x"
  by (induction xs) (auto split: if_splits)

lemma first_row_append: "first_row P xs = Inr x \<Longrightarrow> first_row P (xs @ ys) = Inr x"
  by (auto simp: first_row_def find_append_Some split: option.splits)

lemma MoveDir_subtree:
  assumes "keys_unique s" "GetDirByID s u d = Inr row" "level (directories s) n [d] = []"
    and "p \<in> set (below (directories s) n [d])"
  shows "MoveDir now s u d p =
           Some (Some (if fst (GetRootDirID now s u) = Inr d then ErrMoveRoot
                       else if d = p then ErrMoveIntoItself else ErrMoveIntoDescendant),
                 snd (GetRootDirID now s u))
         \<and> GetDirByID (snd (GetRootDirID now s u)) u d = Inr row"
proof (cases rule: GetRootDirID_cases [of now s u])
  case (found r)
  have "isDescendant s u d p = Some (Inr True)"
    using subtree_owned [OF assms(1,2,3)] assms(4) by (simp add: isDescendant_def)
  then show ?thesis using found(1) assms(2) by (simp add: MoveDir_def)
next
  case (created r us)
  let ?s1 = "s\<lparr>users := us, directories := directories s @ [r], seq_directories := dir_ID r\<rparr>"
  have row: "row \<in> set (directories s)" "dir_ID row = d" "dir_UserID row = u"
    using assms(2) by (auto simp: GetDirByID_def dest: first_row_Inr)
  have g: "GetDirByID ?s1 u d = Inr row"
    using assms(2) by (simp add: GetDirByID_def first_row_append)
  show ?thesis
  proof (cases "d = dir_ID r \<or> d = p")
    case True
    then show ?thesis using created(1) g by (auto simp: MoveDir_def)
  next
    case False
    have "filter (\<lambda>y. dir_ID y = dir_ID row \<and> dir_UserID y = u) (directories s) = [row]"
      using filter_key_single [of dir_ID "directories s" row "\<lambda>y. dir_UserID y = u"] assms(1) row
      by (simp add: keys_unique_def)
    then have "subtree ?s1 d u = subtree_rows (directories s @ [r]) [d] []"
      using False row by (simp add: subtree_def)
    also have "\<dots> = Some (below (directories s @ [r]) n [d])"
      using subtree_rows_ends [of "directories s @ [r]" n "[d]" "[]"] assms(3) created(2)
      by (simp add: level_append_root)
    finally have "isDescendant ?s1 u d p = Some (Inr True)"
      using assms(4) created(2) by (simp add: isDescendant_def below_append_root)
    then show ?thesis using created(1) g False by (simp add: MoveDir_def)
  qed
qed

lemma has_root_GetRootDirID_same: "has_root s u \<Longrightarrow> snd (GetRootDirID now s u) = s"
  using has_root_GetRootDirID [of s u now] by auto



lemma subtree_rows_closed:
  assumes "level ds n q = []" "x \<in> set (below ds n q)" "c \<in> set (child_ids ds x)"
  shows "c \<in> set (below ds n q)"
proof -
  obtain k where "x \<in> set (level ds k q)" using assms(2) by (auto simp: below_def)
  then have "c \<in> set (level ds (Suc k) q)"
    using assms(3) by (subst level_Suc_end) auto
  then show ?thesis using level_in_below [OF assms(1)] by blast
qed

lemma root_not_child:
  assumes "keys_unique s" "GetDirByID s u d = Inr row" "dir_ParentID row \<noteq> None"
    and "find (\<lambda>d. dir_UserID d = u \<and> dir_ParentID d = None) (directories s) = Some r"
  shows "d \<noteq> dir_ID r"
proof
  assume "d = dir_ID r"
  moreover have "row \<in> set (directories s)" "dir_ID row = d"
    using assms(2) by (auto simp: GetDirByID_def dest: first_row_Inr)
  moreover have "r \<in> set (directories s)" "dir_ParentID r = None"
    using assms(4) by (auto simp: find_Some_iff)
  ultimately have "row = r"
    using assms(1) by (auto simp: keys_unique_def distinct_map dest: inj_onD)
  then show False using assms(3) \<open>dir_ParentID r = None\<close> by simp
qed

lemma subtree_same_dirs: "directories a = directories b \<Longrightarrow> subtree a d u = subtree b d u"
  by (simp add: subtree_def)

lemma delete_files_in_fields:
  "directories (delete_files_in D s) = directories s"
  "files (delete_files_in D s) = filter (\<lambda>f. file_DirID f \<notin> set D) (files s)"
  "users (delete_files_in D s) = users s"
  by (simp_all add: delete_files_in_def Let_def)

lemma delete_dirs_in_fields:
  "directories (delete_dirs_in D s) = filter (\<lambda>d. dir_ID d \<notin> set D) (directories s)"
  "files (delete_dirs_in D s) = filter (\<lambda>f. file_DirID f \<notin> set D) (files s)"
  by (simp_all add: delete_dirs_in_def delete_files_in_def Let_def)

lemma DeleteDirRecursive_ok:
  assumes "keys_unique s" "has_root s u" "GetDirByID s u d = Inr row" "dir_ParentID row \<noteq> None"
    and "level (directories s) n [d] = []"
  shows "DeleteDirRecursive now None None s u d =
           Some (None, delete_dirs_in (below (directories s) n [d])
                         (delete_files_in (below (directories s) n [d]) s))"
proof -
  obtain r where r: "GetRootDirID now s u = (Inr (dir_ID r), s)"
      "find (\<lambda>d. dir_UserID d = u \<and> dir_ParentID d = None) (directories s) = Some r"
    using has_root_GetRootDirID [OF assms(2)] by blast
  have ne: "d \<noteq> dir_ID r" using root_not_child [OF assms(1,3,4) r(2)] .
  have s1: "subtree s d u = Some (below (directories s) n [d])"
    using subtree_owned [OF assms(1,3,5)] .
  have s2: "subtree (delete_files_in (below (directories s) n [d]) s) d u
              = Some (below (directories s) n [d])"
    using s1 subtree_same_dirs [of "delete_files_in (below (directories s) n [d]) s" s d u]
    by (simp add: delete_files_in_fields)
  show ?thesis using r(1) ne s1 s2 by (simp add: DeleteDirRecursive_def)
qed

lemma first_row_none: "(\<And>r. r \<in> set rows \<Longrightarrow> \<not> P r) \<Longrightarrow> first_row P rows = Inl ErrNoRows"
  by (cases "find P rows") (auto simp: first_row_def find_Some_iff)

lemma in_below_iff:
  assumes "level ds n [d] = []" "x = d \<or> descendant ds d x"
  shows "x \<in> set (below ds n [d])"
proof -
  have "\<exists>k. x \<in> set (level ds k [d])"
  proof (cases "x = d")
    case True
    then have "x \<in> set (level ds 0 [d])" by simp
    then show ?thesis by blast
  next
    case False
    then show ?thesis using assms(2) descendant_level [of ds d x] by blast
  qed
  then show ?thesis using level_in_below [OF assms(1)] by blast
qed

section \<open>Lemmas about the upload stream\<close>


lemma finishPart_ok:
  assumes "tg_ok tg" "uf_current f = Some c"
  shows "\<exists>doc :: Document. finishPart tg f =
           (None, f\<lparr>uf_current := None,
                    uf_parts := uf_parts f @
                      [\<lparr>in_PartIndex = up_index c, in_TelegramFileID = doc_FileID doc,
                        in_FileUniqueID = doc_FileUniqueID doc,
                        in_Size = (if doc_FileSize doc = 0 then up_size c else doc_FileSize doc)\<rparr>],
                    uf_mimeType := (if uf_mimeType f = [] \<and> doc_MimeType doc \<noteq> []
                                    then doc_MimeType doc else uf_mimeType f),
                    uf_partIndex := uf_partIndex f + 1,
                    uf_sent := uf_sent f @ [(doc_FileID doc, up_piped c)]\<rparr>)"
proof -
  obtain m doc where "res_err (tg (up_filename c) (up_piped c)) = None"
      "res_msg (tg (up_filename c) (up_piped c)) = Some m" "msg_Document m = Some doc"
    using assms(1) unfolding tg_ok_def by blast
  then have "finishPart tg f =
           (None, f\<lparr>uf_current := None,
                    uf_parts := uf_parts f @
                      [\<lparr>in_PartIndex = up_index c, in_TelegramFileID = doc_FileID doc,
                        in_FileUniqueID = doc_FileUniqueID doc,
                        in_Size = (if doc_FileSize doc = 0 then up_size c else doc_FileSize doc)\<rparr>],
                    uf_mimeType := (if uf_mimeType f = [] \<and> doc_MimeType doc \<noteq> []
                                    then doc_MimeType doc else uf_mimeType f),
                    uf_partIndex := uf_partIndex f + 1,
                    uf_sent := uf_sent f @ [(doc_FileID doc, up_piped c)]\<rparr>)"
    using assms(2) by (simp add: finishPart_def Let_def)
  then show ?thesis by (rule exI)
qed

lemma toWrite_facts:
  assumes "p \<noteq> []" "0 < r"
  shows "0 < toWrite p r" "toWrite p r \<le> length p" "int (toWrite p r) \<le> r"
    "int (toWrite p r) < r \<Longrightarrow> toWrite p r = length p"
  using assms by (auto simp: toWrite_def)

lemma Write_loop_open:
  assumes "p \<noteq> []" "\<not> uf_closed f" "\<not> uf_aborted f" "uf_ctxErr f = None"
    and "uf_current f = Some c" "up_size c < uf_maxPartSize f"
  shows "Write_loop tg f w p =
           (let n = toWrite p (uf_maxPartSize f - up_size c);
                f3 = f\<lparr>uf_current := Some (c\<lparr>up_size := up_size c + int n,
                                                  up_piped := up_piped c @ take n p\<rparr>),
                       uf_totalSize := uf_totalSize f + int n\<rparr>
            in if up_size c + int n \<ge> uf_maxPartSize f then
                 (case finishPart tg f3 of
                    (Some err, f4) \<Rightarrow> Some ((w + n, Some err), f4)
                  | (None, f4) \<Rightarrow> Write_loop tg f4 (w + n) (drop n p))
               else Write_loop tg f3 (w + n) (drop n p))"
  apply (subst Write_loop.simps)
  using assms by (simp add: Let_def)

lemma Write_loop_fresh:
  assumes "p \<noteq> []" "\<not> uf_closed f" "\<not> uf_aborted f" "uf_ctxErr f = None"
    and "uf_current f = None" "0 < uf_maxPartSize f"
  shows "Write_loop tg f w p =
           (let n = toWrite p (uf_maxPartSize f);
                f3 = f\<lparr>uf_current := Some \<lparr>up_index = uf_partIndex f, up_size = int n,
                                 up_filename = partFilename f (uf_partIndex f),
                                 up_piped = take n p\<rparr>,
                       uf_totalSize := uf_totalSize f + int n\<rparr>
            in if int n \<ge> uf_maxPartSize f then
                 (case finishPart tg f3 of
                    (Some err, f4) \<Rightarrow> Some ((w + n, Some err), f4)
                  | (None, f4) \<Rightarrow> Write_loop tg f4 (w + n) (drop n p))
               else Write_loop tg f3 (w + n) (drop n p))"
  apply (subst Write_loop.simps)
  using assms by (simp add: Let_def startPartLocked_def)


lemma writing_after_finish:
  assumes "writing f" "uf_current f = None"
    and "int (length bs) = uf_maxPartSize f"
  shows "writing (f\<lparr>uf_current := Some c, uf_totalSize := uf_totalSize f + int (length bs),
                    uf_current := None,
                    uf_parts := uf_parts f @ [\<lparr>in_PartIndex = uf_partIndex f, in_TelegramFileID = r,
                                  in_FileUniqueID = q, in_Size = z\<rparr>],
                    uf_mimeType := mt, uf_partIndex := uf_partIndex f + 1,
                    uf_sent := uf_sent f @ [(r, bs)]\<rparr>)"
  using assms by (simp add: writing_def upload_data_def)

lemma writing_step:
  assumes "writing f" "tg_ok tg" "p \<noteq> []"
  shows "\<exists>n f1. 0 < n \<and> n \<le> length p
            \<and> Write_loop tg f w p = Write_loop tg f1 (w + n) (drop n p)
            \<and> writing f1 \<and> upload_data f1 = upload_data f @ take n p \<and> same_target f f1"
proof (cases "uf_current f")
  case None
  let ?M = "uf_maxPartSize f"
  let ?n = "toWrite p ?M"
  let ?c = "\<lparr>up_index = uf_partIndex f, up_size = int ?n,
             up_filename = partFilename f (uf_partIndex f), up_piped = take ?n p\<rparr>"
  let ?f3 = "f\<lparr>uf_current := Some ?c, uf_totalSize := uf_totalSize f + int ?n\<rparr>"
  have w: "0 < ?M" "\<not> uf_closed f" "\<not> uf_aborted f" "uf_ctxErr f = None"
    using assms(1) by (simp_all add: writing_def)
  have n: "0 < ?n" "?n \<le> length p" "int ?n \<le> ?M"
    using toWrite_facts [OF assms(3) w(1)] by simp_all
  have unf: "Write_loop tg f w p =
      (if int ?n \<ge> ?M then
         (case finishPart tg ?f3 of
            (Some err, f4) \<Rightarrow> Some ((w + ?n, Some err), f4)
          | (None, f4) \<Rightarrow> Write_loop tg f4 (w + ?n) (drop ?n p))
       else Write_loop tg ?f3 (w + ?n) (drop ?n p))"
    using Write_loop_fresh [OF assms(3) w(2,3,4) None w(1), of tg w] by (simp add: Let_def)
  show ?thesis
  proof (cases "int ?n \<ge> ?M")
    case True
    then have full: "int (length (take ?n p)) = ?M" using n by simp
    obtain doc :: Document where fin: "finishPart tg ?f3 =
        (None, ?f3\<lparr>uf_current := None,
                 uf_parts := uf_parts ?f3 @
                   [\<lparr>in_PartIndex = up_index ?c, in_TelegramFileID = doc_FileID doc,
                     in_FileUniqueID = doc_FileUniqueID doc,
                     in_Size = (if doc_FileSize doc = 0 then up_size ?c else doc_FileSize doc)\<rparr>],
                 uf_mimeType := (if uf_mimeType ?f3 = [] \<and> doc_MimeType doc \<noteq> []
                                 then doc_MimeType doc else uf_mimeType ?f3),
                 uf_partIndex := uf_partIndex ?f3 + 1,
                 uf_sent := uf_sent ?f3 @ [(doc_FileID doc, up_piped ?c)]\<rparr>)"
      using finishPart_ok [OF assms(2), of ?f3 ?c] by auto
    let ?f4 = "snd (finishPart tg ?f3)"
    have "Write_loop tg f w p = Write_loop tg ?f4 (w + ?n) (drop ?n p)"
      using unf True fin by simp
    moreover have "writing ?f4"
      using writing_after_finish [OF assms(1) None, of "take ?n p"] full n fin
      by simp
    moreover have "upload_data ?f4 = upload_data f @ take ?n p"
      using None fin by (simp add: upload_data_def)
    moreover have "same_target f ?f4"
      using fin by (simp add: same_target_def)
    ultimately show ?thesis using n by blast
  next
    case False
    have "Write_loop tg f w p = Write_loop tg ?f3 (w + ?n) (drop ?n p)"
      using unf False by simp
    moreover have "writing ?f3"
      using assms(1) None False n by (simp add: writing_def upload_data_def)
    moreover have "upload_data ?f3 = upload_data f @ take ?n p"
      using None by (simp add: upload_data_def)
    moreover have "same_target f ?f3"
      by (simp add: same_target_def)
    ultimately show ?thesis using n by blast
  qed
next
  case (Some c)
  let ?M = "uf_maxPartSize f"
  let ?n = "toWrite p (?M - up_size c)"
  let ?c = "c\<lparr>up_size := up_size c + int ?n, up_piped := up_piped c @ take ?n p\<rparr>"
  let ?f3 = "f\<lparr>uf_current := Some ?c, uf_totalSize := uf_totalSize f + int ?n\<rparr>"
  have w: "0 < ?M" "\<not> uf_closed f" "\<not> uf_aborted f" "uf_ctxErr f = None"
    using assms(1) by (simp_all add: writing_def)
  have c: "up_index c = uf_partIndex f" "up_size c = int (length (up_piped c))"
      "0 < up_size c" "up_size c < ?M"
    using assms(1) Some by (auto simp: writing_def)
  have n: "0 < ?n" "?n \<le> length p" "int ?n \<le> ?M - up_size c"
    using toWrite_facts [OF assms(3), of "?M - up_size c"] c(4) by simp_all
  have unf: "Write_loop tg f w p =
      (if up_size c + int ?n \<ge> ?M then
         (case finishPart tg ?f3 of
            (Some err, f4) \<Rightarrow> Some ((w + ?n, Some err), f4)
          | (None, f4) \<Rightarrow> Write_loop tg f4 (w + ?n) (drop ?n p))
       else Write_loop tg ?f3 (w + ?n) (drop ?n p))"
    using Write_loop_open [OF assms(3) w(2,3,4) Some c(4), of tg w] by (simp add: Let_def)
  show ?thesis
  proof (cases "up_size c + int ?n \<ge> ?M")
    case True
    then have full: "int (length (up_piped c @ take ?n p)) = ?M" using n c by simp
    obtain doc :: Document where fin: "finishPart tg ?f3 =
        (None, ?f3\<lparr>uf_current := None,
                 uf_parts := uf_parts ?f3 @
                   [\<lparr>in_PartIndex = up_index ?c, in_TelegramFileID = doc_FileID doc,
                     in_FileUniqueID = doc_FileUniqueID doc,
                     in_Size = (if doc_FileSize doc = 0 then up_size ?c else doc_FileSize doc)\<rparr>],
                 uf_mimeType := (if uf_mimeType ?f3 = [] \<and> doc_MimeType doc \<noteq> []
                                 then doc_MimeType doc else uf_mimeType ?f3),
                 uf_partIndex := uf_partIndex ?f3 + 1,
                 uf_sent := uf_sent ?f3 @ [(doc_FileID doc, up_piped ?c)]\<rparr>)"
      using finishPart_ok [OF assms(2), of ?f3 ?c] by auto
    let ?f4 = "snd (finishPart tg ?f3)"
    have "Write_loop tg f w p = Write_loop tg ?f4 (w + ?n) (drop ?n p)"
      using unf True fin by simp
    moreover have "writing ?f4"
      using assms(1) Some full n c fin by (auto simp: writing_def upload_data_def)
    moreover have "upload_data ?f4 = upload_data f @ take ?n p"
      using Some fin by (simp add: upload_data_def)
    moreover have "same_target f ?f4"
      using fin by (simp add: same_target_def)
    ultimately show ?thesis using n by blast
  next
    case False
    have "Write_loop tg f w p = Write_loop tg ?f3 (w + ?n) (drop ?n p)"
      using unf False by simp
    moreover have "writing ?f3"
      using assms(1) Some False n c by (auto simp: writing_def upload_data_def)
    moreover have "upload_data ?f3 = upload_data f @ take ?n p"
      using Some by (simp add: upload_data_def)
    moreover have "same_target f ?f3"
      by (simp add: same_target_def)
    ultimately show ?thesis using n by blast
  qed
qed


lemma Write_loop_writing:
  assumes "writing f" "tg_ok tg"
  shows "\<exists>f'. Write_loop tg f w p = Some ((w + length p, None), f')
           \<and> writing f' \<and> upload_data f' = upload_data f @ p \<and> same_target f f'"
  using assms(1)
proof (induction "length p" arbitrary: p f w rule: less_induct)
  case less
  show ?case
  proof (cases "p = []")
    case True
    have "Write_loop tg f w p = Some ((w, None), f)"
      using True by (subst Write_loop.simps) simp
    then show ?thesis using True less.prems by (simp add: same_target_def)
  next
    case False
    obtain n f1 where s: "0 < n" "n \<le> length p"
        "Write_loop tg f w p = Write_loop tg f1 (w + n) (drop n p)"
        "writing f1" "upload_data f1 = upload_data f @ take n p" "same_target f f1"
      using writing_step [OF less.prems assms(2) False, of w] by blast
    have "length (drop n p) < length p" using s(1,2) by simp
    then obtain f' where f': "Write_loop tg f1 (w + n) (drop n p)
          = Some ((w + n + length (drop n p), None), f')"
        "writing f'" "upload_data f' = upload_data f1 @ drop n p" "same_target f1 f'"
      using less.hyps [of "drop n p" f1 "w + n"] s(4) by blast
    have "Write_loop tg f w p = Some ((w + length p, None), f')"
      using s(2,3) f'(1) by simp
    moreover have "upload_data f' = upload_data f @ p"
      using s(5) f'(3) by simp
    moreover have "same_target f f'"
      using s(6) f'(4) by (simp add: same_target_def)
    ultimately show ?thesis using f'(2) by blast
  qed
qed

lemma Write_chunks_writing:
  assumes "tg_ok tg"
  shows "writing f \<Longrightarrow> \<exists>f'. Write_chunks tg f ps = Some (Inr f')
           \<and> writing f' \<and> upload_data f' = upload_data f @ concat ps \<and> same_target f f'"
proof (induction ps arbitrary: f)
  case Nil
  then show ?case by (simp add: same_target_def)
next
  case (Cons p ps)
  obtain f1 where f1: "Write_loop tg f 0 p = Some ((0 + length p, None), f1)"
      "writing f1" "upload_data f1 = upload_data f @ p" "same_target f f1"
    using Write_loop_writing [OF Cons.prems assms, of 0 p] by blast
  obtain f' where f': "Write_chunks tg f1 ps = Some (Inr f')"
      "writing f'" "upload_data f' = upload_data f1 @ concat ps" "same_target f1 f'"
    using Cons.IH [OF f1(2)] by blast
  have "Write_chunks tg f (p # ps) = Some (Inr f')"
    using f1(1) f'(1) by (simp add: Write_def)
  moreover have "upload_data f' = upload_data f @ concat (p # ps)"
    using f1(3) f'(3) by simp
  moreover have "same_target f f'"
    using f1(4) f'(4) by (simp add: same_target_def)
  ultimately show ?case using f'(2) by blast
qed

lemma writing_new:
  "0 < M \<Longrightarrow> writing (newUploadFile ownerID chat dirID name existing M contentLength)"
  "upload_data (newUploadFile ownerID chat dirID name existing M contentLength) = []"
  by (simp_all add: writing_def newUploadFile_def upload_data_def)



lemma length_concat_full:
  "list_all (\<lambda>b. int (length (snd b)) = M) xs
     \<Longrightarrow> int (length (concat (map snd xs))) = int (length xs) * M"
  by (induction xs) (simp_all add: algebra_simps)

lemma ceil_div_parts:
  fixes M k r :: int
  assumes "0 < M" "0 \<le> r" "r < M"
  shows "(k * M + r + M - 1) div M = k + (if r = 0 then 0 else 1)"
proof -
  have "(k * M + r + M - 1) div M = ((r + M - 1) + M * k) div M"
    by (simp add: algebra_simps)
  also have "\<dots> = k + (r + M - 1) div M"
    using assms(1) by (subst div_mult_self2) simp_all
  also have "(r + M - 1) div M = (if r = 0 then 0 else 1)"
  proof (cases "r = 0")
    case True
    then show ?thesis using assms(1) by (simp add: div_pos_pos_trivial)
  next
    case False
    have "(r + M - 1) div M = ((r - 1) + M * 1) div M" by (simp add: algebra_simps)
    also have "\<dots> = 1 + (r - 1) div M"
      using assms(1) by (subst div_mult_self2) simp_all
    also have "(r - 1) div M = 0"
      using assms False by (simp add: div_pos_pos_trivial)
    finally show ?thesis using False by simp
  qed
  finally show ?thesis .
qed

lemma finish_writing:
  assumes "writing f" "tg_ok tg"
  shows "\<exists>f2. finishPart tg (f\<lparr>uf_closed := True\<rparr>) = (None, f2)
           \<and> concat (map snd (uf_sent f2)) = upload_data f
           \<and> int (length (uf_parts f2))
               = (int (length (upload_data f)) + uf_maxPartSize f - 1) div uf_maxPartSize f
           \<and> map in_PartIndex (uf_parts f2) = map int [0..<length (uf_parts f2)]
           \<and> map in_TelegramFileID (uf_parts f2) = map fst (uf_sent f2)
           \<and> uf_totalSize f2 = int (length (upload_data f))
           \<and> same_target f f2 \<and> uf_closed f2"
proof -
  let ?M = "uf_maxPartSize f"
  let ?g = "f\<lparr>uf_closed := True\<rparr>"
  have w: "0 < ?M" "uf_partIndex f = int (length (uf_parts f))"
      "map in_PartIndex (uf_parts f) = map int [0..<length (uf_parts f)]"
      "map in_TelegramFileID (uf_parts f) = map fst (uf_sent f)"
      "list_all (\<lambda>b. int (length (snd b)) = ?M) (uf_sent f)"
      "uf_totalSize f = int (length (upload_data f))"
    using assms(1) by (simp_all add: writing_def)
  have len: "length (uf_parts f) = length (uf_sent f)"
    using w(4) by (metis length_map)
  have full: "int (length (concat (map snd (uf_sent f)))) = int (length (uf_sent f)) * ?M"
    using length_concat_full [OF w(5)] .
  show ?thesis
  proof (cases "uf_current f")
    case None
    have "finishPart tg ?g = (None, ?g)" using None by (simp add: finishPart_def)
    moreover have "concat (map snd (uf_sent ?g)) = upload_data f"
      using None by (simp add: upload_data_def)
    moreover have "int (length (uf_parts ?g)) = (int (length (upload_data f)) + ?M - 1) div ?M"
      using ceil_div_parts [of ?M 0 "int (length (uf_sent f))"] w(1) full len None
      by (simp add: upload_data_def)
    ultimately show ?thesis using w by (simp add: same_target_def)
  next
    case (Some c)
    have c: "up_index c = uf_partIndex f" "up_size c = int (length (up_piped c))"
        "0 < up_size c" "up_size c < ?M"
      using assms(1) Some by (auto simp: writing_def)
    obtain doc :: Document where fin: "finishPart tg ?g =
        (None, ?g\<lparr>uf_current := None,
                 uf_parts := uf_parts ?g @
                   [\<lparr>in_PartIndex = up_index c, in_TelegramFileID = doc_FileID doc,
                     in_FileUniqueID = doc_FileUniqueID doc,
                     in_Size = (if doc_FileSize doc = 0 then up_size c else doc_FileSize doc)\<rparr>],
                 uf_mimeType := (if uf_mimeType ?g = [] \<and> doc_MimeType doc \<noteq> []
                                 then doc_MimeType doc else uf_mimeType ?g),
                 uf_partIndex := uf_partIndex ?g + 1,
                 uf_sent := uf_sent ?g @ [(doc_FileID doc, up_piped c)]\<rparr>)"
      using finishPart_ok [OF assms(2), of ?g c] Some by auto
    let ?f2 = "snd (finishPart tg ?g)"
    have "finishPart tg ?g = (None, ?f2)" using fin by simp
    moreover have "concat (map snd (uf_sent ?f2)) = upload_data f"
      using Some fin by (simp add: upload_data_def)
    moreover have "int (length (uf_parts ?f2))
        = (int (length (upload_data f)) + ?M - 1) div ?M"
      using ceil_div_parts [of ?M "up_size c" "int (length (uf_sent f))"] w(1) full len Some c fin
      by (simp add: upload_data_def)
    moreover have "map in_PartIndex (uf_parts ?f2) = map int [0..<length (uf_parts ?f2)]"
      using fin w(2,3) c(1) by simp
    moreover have "map in_TelegramFileID (uf_parts ?f2) = map fst (uf_sent ?f2)"
      using fin w(4) by simp
    moreover have "uf_totalSize ?f2 = int (length (upload_data f))"
      using fin w(6) by simp
    moreover have "same_target f ?f2 \<and> uf_closed ?f2"
      using fin by (simp add: same_target_def)
    ultimately show ?thesis by blast
  qed
qed



lemma ensure_free:
  assumes "\<not> name_taken s u p n None None"
  shows "ensureNameAvailable s u p n xd xf = None"
proof -
  have "GetDirByName s u p n = Inl ErrNoRows"
    unfolding GetDirByName_def using assms by (intro first_row_none) (auto simp: name_taken_def)
  moreover have "GetFileByName s u p n = Inl ErrNoRows"
    unfolding GetFileByName_def using assms by (intro first_row_none) (auto simp: name_taken_def)
  ultimately show ?thesis by (simp add: ensureNameAvailable_def)
qed

lemma ensure_free_but_file:
  assumes "\<not> name_taken s u p n None (Some fid)" "fid \<noteq> 0"
  shows "ensureNameAvailable s u p n 0 fid = None"
proof -
  have d: "GetDirByName s u p n = Inl ErrNoRows"
    unfolding GetDirByName_def using assms by (intro first_row_none) (auto simp: name_taken_def)
  show ?thesis
  proof (cases "GetFileByName s u p n")
    case (Inl e)
    then have "e = ErrNoRows" by (auto simp: GetFileByName_def dest: first_row_Inl)
    then show ?thesis using d Inl by (simp add: ensureNameAvailable_def)
  next
    case (Inr r)
    then have "r \<in> set (files s)" "file_UserID r = u" "file_DirID r = p" "file_Name r = n"
      by (auto simp: GetFileByName_def dest: first_row_Inr)
    then have "file_ID r = fid" using assms by (auto simp: name_taken_def)
    then show ?thesis using d Inr assms(2) by (auto simp: ensureNameAvailable_def)
  qed
qed

lemma length_part_rows [simp]: "length (part_rows now fid seq parts) = length parts"
  by (induction parts arbitrary: seq) simp_all

lemma part_rows_fields:
  "map part_FileID (part_rows now fid seq parts) = replicate (length parts) fid"
  "map part_PartIndex (part_rows now fid seq parts) = map in_PartIndex parts"
  "map part_TelegramFileID (part_rows now fid seq parts) = map in_TelegramFileID parts"
  "map part_Size (part_rows now fid seq parts) = map in_Size parts"
  by (induction parts arbitrary: seq) simp_all

lemma insertFilePartsTx_ok:
  assumes "fileID \<in> set (map file_ID (files s))" "distinct (map in_PartIndex parts)"
    and "\<forall>p \<in> set (file_parts s). part_FileID p = fileID \<longrightarrow>
            part_PartIndex p \<notin> set (map in_PartIndex parts)"
  shows "insertFilePartsTx now (\<lambda>_. None) k s fileID parts =
           Inr (s\<lparr>file_parts := file_parts s @ part_rows now fileID (seq_file_parts s) parts,
                  seq_file_parts := seq_file_parts s + int (length parts)\<rparr>)"
  using assms
proof (induction parts arbitrary: s k)
  case Nil
  then show ?case by simp
next
  case (Cons a parts)
  let ?s1 = "s\<lparr>file_parts := file_parts s @
                 [\<lparr>part_ID = seq_file_parts s + 1, part_FileID = fileID,
                   part_PartIndex = in_PartIndex a,
                   part_TelegramFileID = in_TelegramFileID a,
                   part_FileUniqueID = in_FileUniqueID a,
                   part_Size = in_Size a, part_CreatedAt = now\<rparr>],
               seq_file_parts := seq_file_parts s + 1\<rparr>"
  have ok: "(fileID, in_PartIndex a) \<notin> set (map (\<lambda>p. (part_FileID p, part_PartIndex p)) (file_parts s))"
    using Cons.prems(3) by auto
  have "insertFilePartsTx now (\<lambda>_. None) (Suc k) ?s1 fileID parts =
          Inr (?s1\<lparr>file_parts := file_parts ?s1 @ part_rows now fileID (seq_file_parts ?s1) parts,
                    seq_file_parts := seq_file_parts ?s1 + int (length parts)\<rparr>)"
    using Cons.prems by (intro Cons.IH) auto
  then show ?case using ok Cons.prems(1) by (simp add: algebra_simps)
qed

lemma insertFilePartsTx_fault:
  "insertFilePartsTx now fault k s fileID parts = Inr s'
     \<Longrightarrow> insertFilePartsTx now (\<lambda>_. None) k' s fileID parts = Inr s'"
  by (induction parts arbitrary: s k k') (auto split: option.splits if_splits)

lemma CreateFile_ok:
  assumes "\<not> name_taken st u dir name None None" "u \<in> set (users st)"
    and "dir \<in> set (map dir_ID (directories st))"
  shows "\<exists>r. CreateFile now st u dir name fid fuid sz mime =
           (Inr r, insert_file now st u dir name fid fuid sz (default_mime mime))"
proof -
  let ?s' = "insert_file now st u dir name fid fuid sz (default_mime mime)"
  obtain r where "GetFileByID ?s' u (seq_files st + 1) = Inr r"
    using first_row_ex [of "\<lparr>file_ID = seq_files st + 1, file_UserID = u, file_DirID = dir,
            file_Name = name, file_FileID = fid, file_FileUniqueID = fuid,
            file_Size = sz, file_MimeType = default_mime mime, file_CreatedAt = now\<rparr>"
          "files ?s'" "\<lambda>f. file_ID f = seq_files st + 1 \<and> file_UserID f = u"]
    by (auto simp: GetFileByID_def insert_file_def)
  then show ?thesis
    using assms ensure_free [OF assms(1), of 0 0] by (simp add: CreateFile_def Let_def)
qed

lemma CreateFileWithParts_ok:
  assumes "\<not> name_taken st u dir name None None" "u \<in> set (users st)"
    and "dir \<in> set (map dir_ID (directories st))"
    and "parts_issued st" "distinct (map in_PartIndex parts)" "length parts > 1"
  shows "\<exists>r. CreateFileWithParts now (\<lambda>_. None) st u dir name fid fuid sz mime parts =
           (Inr r, (insert_file now st u dir name fid fuid sz (default_mime mime))
                     \<lparr>file_parts := file_parts st @
                         part_rows now (seq_files st + 1) (seq_file_parts st) parts,
                      seq_file_parts := seq_file_parts st + int (length parts)\<rparr>)"
proof -
  let ?s1 = "insert_file now st u dir name fid fuid sz (default_mime mime)"
  let ?s2 = "?s1\<lparr>file_parts := file_parts st @
                  part_rows now (seq_files st + 1) (seq_file_parts st) parts,
                seq_file_parts := seq_file_parts st + int (length parts)\<rparr>"
  have "\<forall>p \<in> set (file_parts ?s1). part_FileID p = seq_files st + 1 \<longrightarrow>
          part_PartIndex p \<notin> set (map in_PartIndex parts)"
    using assms(4) by (auto simp: parts_issued_def insert_file_def list_all_iff)
  then have ins: "insertFilePartsTx now (\<lambda>_. None) 2 ?s1 (seq_files st + 1) parts = Inr ?s2"
    using insertFilePartsTx_ok [of "seq_files st + 1" ?s1 parts now 2] assms(5)
    by (simp add: insert_file_def)
  obtain r where "GetFileByID ?s2 u (seq_files st + 1) = Inr r"
    using first_row_ex [of "\<lparr>file_ID = seq_files st + 1, file_UserID = u, file_DirID = dir,
            file_Name = name, file_FileID = fid, file_FileUniqueID = fuid,
            file_Size = sz, file_MimeType = default_mime mime, file_CreatedAt = now\<rparr>"
          "files ?s2" "\<lambda>f. file_ID f = seq_files st + 1 \<and> file_UserID f = u"]
    by (auto simp: GetFileByID_def insert_file_def)
  then show ?thesis
    using assms(2,3,6) ensure_free [OF assms(1), of 0 0] ins
    by (simp add: CreateFileWithParts_def create_tx_def in_tx_def Let_def)
qed



lemma distinct_map_int_upt: "distinct (map int [0..<n])"
  by (simp add: distinct_map inj_on_def)

lemma parts_gt_one:
  fixes M S :: int
  assumes "0 < M"
  shows "1 < (S + M - 1) div M \<longleftrightarrow> M < S"
proof
  assume "M < S"
  then have "2 * M \<le> S + M - 1" by simp
  then have "(2 * M) div M \<le> (S + M - 1) div M"
    using assms by (intro zdiv_mono1) simp_all
  then show "1 < (S + M - 1) div M" using assms by simp
next
  assume a: "1 < (S + M - 1) div M"
  show "M < S"
  proof (rule ccontr)
    assume "\<not> M < S"
    then have "S + M - 1 \<le> (M - 1) + M * 1" by simp
    then have "(S + M - 1) div M \<le> ((M - 1) + M * 1) div M"
      using assms by (intro zdiv_mono1) simp_all
    also have "\<dots> = 1 + (M - 1) div M"
      using assms by (subst div_mult_self2) simp_all
    also have "(M - 1) div M = 0"
      using assms by (simp add: div_pos_pos_trivial)
    finally show False using a by simp
  qed
qed

lemma Close_new_file:
  assumes "writing f" "tg_ok tg" "upload_data f \<noteq> []" "uf_existing f = None"
    and "\<not> name_taken st (uf_ownerID f) (uf_parentDirID f) (uf_name f) None None"
    and "uf_ownerID f \<in> set (users st)"
    and "uf_parentDirID f \<in> set (map dir_ID (directories st))"
    and "parts_issued st"
  shows "\<exists>f2 st'. Close tg now (\<lambda>_. None) st f = (None, f2, st')
           \<and> concat (map snd (uf_sent f2)) = upload_data f
           \<and> int (length (uf_parts f2))
               = (int (length (upload_data f)) + uf_maxPartSize f - 1) div uf_maxPartSize f
           \<and> map in_PartIndex (uf_parts f2) = map int [0..<length (uf_parts f2)]
           \<and> map in_TelegramFileID (uf_parts f2) = map fst (uf_sent f2)
           \<and> files st' = files st @
               [\<lparr>file_ID = seq_files st + 1, file_UserID = uf_ownerID f,
                 file_DirID = uf_parentDirID f, file_Name = uf_name f,
                 file_FileID = in_TelegramFileID (hd (uf_parts f2)),
                 file_FileUniqueID = in_FileUniqueID (hd (uf_parts f2)),
                 file_Size = int (length (upload_data f)),
                 file_MimeType = default_mime (uf_mimeType f2), file_CreatedAt = now\<rparr>]
           \<and> file_parts st' = file_parts st @
               (if uf_maxPartSize f < int (length (upload_data f))
                then part_rows now (seq_files st + 1) (seq_file_parts st) (uf_parts f2) else [])
           \<and> directories st' = directories st \<and> shares st' = shares st"
proof -
  let ?M = "uf_maxPartSize f"
  let ?S = "int (length (upload_data f))"
  have w: "0 < ?M" "\<not> uf_closed f" "\<not> uf_aborted f"
    using assms(1) by (simp_all add: writing_def)
  obtain f2 where f2: "finishPart tg (f\<lparr>uf_closed := True\<rparr>) = (None, f2)"
      "concat (map snd (uf_sent f2)) = upload_data f"
      "int (length (uf_parts f2)) = (?S + ?M - 1) div ?M"
      "map in_PartIndex (uf_parts f2) = map int [0..<length (uf_parts f2)]"
      "map in_TelegramFileID (uf_parts f2) = map fst (uf_sent f2)"
      "uf_totalSize f2 = ?S" "same_target f f2"
    using finish_writing [OF assms(1,2)] by blast
  have tgt: "uf_ownerID f2 = uf_ownerID f" "uf_parentDirID f2 = uf_parentDirID f"
      "uf_name f2 = uf_name f" "uf_existing f2 = None"
    using f2(7) assms(4) by (simp_all add: same_target_def)
  have ne: "uf_parts f2 \<noteq> []"
  proof
    assume "uf_parts f2 = []"
    then have "uf_sent f2 = []" using f2(5) by simp
    then show False using f2(2) assms(3) by simp
  qed
  then obtain first rest where fr: "uf_parts f2 = first # rest" by (cases "uf_parts f2") auto
  have many: "1 < length (uf_parts f2) \<longleftrightarrow> ?M < ?S"
    using parts_gt_one [OF w(1), of ?S] f2(3) by linarith
  have dist: "distinct (map in_PartIndex (uf_parts f2))"
    using f2(4) distinct_map_int_upt by simp
  show ?thesis
  proof (cases "?M < ?S")
    case True
    then have l: "1 < length (uf_parts f2)" using many by simp
    obtain r where "CreateFileWithParts now (\<lambda>_. None) st (uf_ownerID f) (uf_parentDirID f)
          (uf_name f) (in_TelegramFileID first) (in_FileUniqueID first) ?S (uf_mimeType f2)
          (uf_parts f2) =
        (Inr r, (insert_file now st (uf_ownerID f) (uf_parentDirID f) (uf_name f)
                   (in_TelegramFileID first) (in_FileUniqueID first) ?S
                   (default_mime (uf_mimeType f2)))
                  \<lparr>file_parts := file_parts st @
                      part_rows now (seq_files st + 1) (seq_file_parts st) (uf_parts f2),
                   seq_file_parts := seq_file_parts st + int (length (uf_parts f2))\<rparr>)"
      using CreateFileWithParts_ok [OF assms(5,6,7,8) dist l] by blast
    then show ?thesis
      using w f2 tgt fr True l
      by (simp add: Close_def insert_file_def)
  next
    case False
    then have l: "\<not> 1 < length (uf_parts f2)" using many by simp
    obtain r where "CreateFile now st (uf_ownerID f) (uf_parentDirID f)
          (uf_name f) (in_TelegramFileID first) (in_FileUniqueID first) ?S (uf_mimeType f2) =
        (Inr r, insert_file now st (uf_ownerID f) (uf_parentDirID f) (uf_name f)
                   (in_TelegramFileID first) (in_FileUniqueID first) ?S
                   (default_mime (uf_mimeType f2)))"
      using CreateFile_ok [OF assms(5,6,7)] by blast
    then show ?thesis
      using w f2 tgt fr False l
      by (simp add: Close_def insert_file_def)
  qed
qed



lemma replace_tx_ok:
  assumes "GetFileByID st u fid = Inr row" "distinct (map in_PartIndex parts)"
  shows "replace_tx now (\<lambda>_. None) st u fid name tfid fuid sz (default_mime mime) parts =
           Inr (st\<lparr>files := map (\<lambda>f. if file_ID f = fid \<and> file_UserID f = u
                                  then replaced_row f name tfid fuid sz mime else f) (files st),
               file_parts := filter (\<lambda>p. part_FileID p \<noteq> fid) (file_parts st) @
                  (if length parts > 1 then part_rows now fid (seq_file_parts st) parts else []),
               seq_file_parts := seq_file_parts st +
                  (if length parts > 1 then int (length parts) else 0)\<rparr>)"
proof -
  let ?upd = "\<lambda>f. if file_ID f = fid \<and> file_UserID f = u
                   then f\<lparr>file_Name := name, file_FileID := tfid, file_FileUniqueID := fuid,
                          file_Size := sz, file_MimeType := default_mime mime\<rparr> else f"
  let ?s2 = "st\<lparr>files := map ?upd (files st),
                file_parts := filter (\<lambda>p. part_FileID p \<noteq> fid) (file_parts st)\<rparr>"
  have row: "row \<in> set (files st)" "file_ID row = fid" "file_UserID row = u"
    using assms(1) by (auto simp: GetFileByID_def dest: first_row_Inr)
  then have aff: "filter (\<lambda>f. file_ID f = fid \<and> file_UserID f = u) (files st) \<noteq> []"
    by (auto simp: filter_empty_conv)
  have "file_ID (?upd row) = fid" using row by simp
  then have in2: "fid \<in> set (map file_ID (files ?s2))"
    using row(1) by (auto simp: image_iff intro!: bexI [of _ row])
  have ins: "insertFilePartsTx now (\<lambda>_. None) 3 ?s2 fid parts =
      Inr (?s2\<lparr>file_parts := file_parts ?s2 @ part_rows now fid (seq_file_parts ?s2) parts,
               seq_file_parts := seq_file_parts ?s2 + int (length parts)\<rparr>)"
    using in2 assms(2) by (intro insertFilePartsTx_ok) auto
  show ?thesis
    using aff ins by (simp add: replace_tx_def Let_def replaced_row_def)
qed

lemma replace_tx_fault:
  assumes "replace_tx now fault st u fid name tfid fuid sz mime parts = Inr s'"
  shows "replace_tx now (\<lambda>_. None) st u fid name tfid fuid sz mime parts = Inr s'"
proof -
  let ?s1 = "st\<lparr>files := map (\<lambda>f. if file_ID f = fid \<and> file_UserID f = u
                     then f\<lparr>file_Name := name, file_FileID := tfid, file_FileUniqueID := fuid,
                            file_Size := sz, file_MimeType := mime\<rparr> else f) (files st)\<rparr>"
  let ?s2 = "?s1\<lparr>file_parts := filter (\<lambda>p. part_FileID p \<noteq> fid) (file_parts ?s1)\<rparr>"
  have f: "fault 0 = None" "fault 1 = None" "fault 2 = None"
      "length (filter (\<lambda>f. file_ID f = fid \<and> file_UserID f = u) (files st)) \<noteq> 0"
    using assms by (auto simp: replace_tx_def Let_def split: option.splits if_splits)
  show ?thesis
  proof (cases "length parts > 1")
    case True
    then have "insertFilePartsTx now fault 3 ?s2 fid parts = Inr s'"
      using assms f by (auto simp: replace_tx_def Let_def split: option.splits sum.splits)
    then have "insertFilePartsTx now (\<lambda>_. None) 3 ?s2 fid parts = Inr s'"
      by (rule insertFilePartsTx_fault)
    then show ?thesis using f(4) True by (simp add: replace_tx_def Let_def)
  next
    case False
    then have "s' = ?s2"
      using assms f by (auto simp: replace_tx_def Let_def split: option.splits)
    then show ?thesis using f(4) False by (simp add: replace_tx_def Let_def)
  qed
qed

lemma ReplaceFileWithParts_atomic:
  "snd (ReplaceFileWithParts now fault st u fid name tfid fuid sz mime parts) =
     (if fst (ReplaceFileWithParts now fault st u fid name tfid fuid sz mime parts) = None
      then snd (ReplaceFileWithParts now (\<lambda>_. None) st u fid name tfid fuid sz mime parts)
      else st)"
proof (cases "GetFileByID st u fid")
  case (Inl e)
  then show ?thesis by (simp add: ReplaceFileWithParts_def)
next
  case (Inr frow)
  show ?thesis
  proof (cases "ensureNameAvailable st u (file_DirID frow) name 0 fid")
    case (Some e)
    then show ?thesis using Inr by (simp add: ReplaceFileWithParts_def)
  next
    case None
    show ?thesis
    proof (cases "replace_tx now fault st u fid name tfid fuid sz (default_mime mime) parts")
      case (Inl e)
      then show ?thesis using Inr None by (simp add: ReplaceFileWithParts_def in_tx_def)
    next
      case r: (Inr s')
      then show ?thesis
        using Inr None replace_tx_fault [OF r] by (simp add: ReplaceFileWithParts_def in_tx_def)
    qed
  qed
qed

lemma ReplaceFileWithParts_ok:
  assumes "GetFileByID st u fid = Inr row" "fid \<noteq> 0"
    and "\<not> name_taken st u (file_DirID row) name None (Some fid)"
    and "distinct (map in_PartIndex parts)"
  shows "ReplaceFileWithParts now (\<lambda>_. None) st u fid name tfid fuid sz mime parts =
           (None,
            st\<lparr>files := map (\<lambda>f. if file_ID f = fid \<and> file_UserID f = u
                                  then replaced_row f name tfid fuid sz mime else f) (files st),
               file_parts := filter (\<lambda>p. part_FileID p \<noteq> fid) (file_parts st) @
                  (if length parts > 1 then part_rows now fid (seq_file_parts st) parts else []),
               seq_file_parts := seq_file_parts st +
                  (if length parts > 1 then int (length parts) else 0)\<rparr>)"
  using assms(1) ensure_free_but_file [OF assms(3,2)] replace_tx_ok [OF assms(1,4)]
  by (simp add: ReplaceFileWithParts_def in_tx_def)



lemma first_row_map_key:
  assumes "distinct (map k rows)" "r \<in> set rows" "k r = a" "\<And>x. k (g x) = k x" "Q (g r)"
  shows "first_row (\<lambda>x. k x = a \<and> Q x) (map g rows) = Inr (g r)"
  using assms(1,2,3)
proof (induction rows)
  case Nil
  then show ?case by simp
next
  case (Cons x rows)
  show ?case
  proof (cases "x = r")
    case True
    then show ?thesis using Cons.prems assms(4,5) by (simp add: first_row_def)
  next
    case False
    then have "r \<in> set rows" using Cons.prems by simp
    moreover have "k x \<noteq> a" using Cons.prems \<open>r \<in> set rows\<close> by auto
    ultimately show ?thesis
      using Cons assms(4) by (simp add: first_row_def)
  qed
qed


lemma Close_replace:
  assumes "writing f" "tg_ok tg" "upload_data f \<noteq> []" "uf_existing f = Some ex"
    and "GetFileByID st (uf_ownerID f) (file_ID ex) = Inr row" "file_ID ex \<noteq> 0"
    and "\<not> name_taken st (uf_ownerID f) (file_DirID row) (uf_name f) None (Some (file_ID ex))"
  shows "\<exists>f2 st'. Close tg now (\<lambda>_. None) st f = (None, f2, st')
           \<and> concat (map snd (uf_sent f2)) = upload_data f
           \<and> int (length (uf_parts f2))
               = (int (length (upload_data f)) + uf_maxPartSize f - 1) div uf_maxPartSize f
           \<and> map in_PartIndex (uf_parts f2) = map int [0..<length (uf_parts f2)]
           \<and> map in_TelegramFileID (uf_parts f2) = map fst (uf_sent f2)
           \<and> files st' =
               map (\<lambda>g. if file_ID g = file_ID ex \<and> file_UserID g = uf_ownerID f
                         then replaced_row g (uf_name f) (in_TelegramFileID (hd (uf_parts f2)))
                                (in_FileUniqueID (hd (uf_parts f2)))
                                (int (length (upload_data f))) (uf_mimeType f2)
                         else g) (files st)
           \<and> file_parts st' =
               filter (\<lambda>p. part_FileID p \<noteq> file_ID ex) (file_parts st) @
               (if uf_maxPartSize f < int (length (upload_data f))
                then part_rows now (file_ID ex) (seq_file_parts st) (uf_parts f2) else [])
           \<and> directories st' = directories st \<and> shares st' = shares st
           \<and> (\<forall>fault. snd (snd (Close tg now fault st f)) =
                 (if fst (Close tg now fault st f) = None then st' else st))"
proof -
  let ?M = "uf_maxPartSize f"
  let ?S = "int (length (upload_data f))"
  have w: "0 < ?M" "\<not> uf_closed f" "\<not> uf_aborted f"
    using assms(1) by (simp_all add: writing_def)
  obtain f2 where f2: "finishPart tg (f\<lparr>uf_closed := True\<rparr>) = (None, f2)"
      "concat (map snd (uf_sent f2)) = upload_data f"
      "int (length (uf_parts f2)) = (?S + ?M - 1) div ?M"
      "map in_PartIndex (uf_parts f2) = map int [0..<length (uf_parts f2)]"
      "map in_TelegramFileID (uf_parts f2) = map fst (uf_sent f2)"
      "uf_totalSize f2 = ?S" "same_target f f2"
    using finish_writing [OF assms(1,2)] by blast
  have tgt: "uf_ownerID f2 = uf_ownerID f" "uf_name f2 = uf_name f" "uf_existing f2 = Some ex"
    using f2(7) assms(4) by (simp_all add: same_target_def)
  have ne: "uf_parts f2 \<noteq> []"
  proof
    assume "uf_parts f2 = []"
    then have "uf_sent f2 = []" using f2(5) by simp
    then show False using f2(2) assms(3) by simp
  qed
  then obtain first rest where fr: "uf_parts f2 = first # rest" by (cases "uf_parts f2") auto
  have many: "1 < length (uf_parts f2) \<longleftrightarrow> ?M < ?S"
    using parts_gt_one [OF w(1), of ?S] f2(3) by linarith
  have dist: "distinct (map in_PartIndex (uf_parts f2))"
    using f2(4) distinct_map_int_upt by simp
  let ?R = "\<lambda>fault. ReplaceFileWithParts now fault st (uf_ownerID f) (file_ID ex) (uf_name f)
               (in_TelegramFileID first) (in_FileUniqueID first) ?S (uf_mimeType f2) (uf_parts f2)"
  have cl: "Close tg now fault st f = (fst (?R fault), f2, snd (?R fault))" for fault
    using w f2(1,6) tgt fr by (simp add: Close_def split: prod.splits)
  have ok: "?R (\<lambda>_. None) =
      (None,
       st\<lparr>files := map (\<lambda>g. if file_ID g = file_ID ex \<and> file_UserID g = uf_ownerID f
                            then replaced_row g (uf_name f) (in_TelegramFileID first)
                                   (in_FileUniqueID first) ?S (uf_mimeType f2)
                            else g) (files st),
          file_parts := filter (\<lambda>p. part_FileID p \<noteq> file_ID ex) (file_parts st) @
             (if length (uf_parts f2) > 1
              then part_rows now (file_ID ex) (seq_file_parts st) (uf_parts f2) else []),
          seq_file_parts := seq_file_parts st +
             (if length (uf_parts f2) > 1 then int (length (uf_parts f2)) else 0)\<rparr>)"
    using ReplaceFileWithParts_ok [OF assms(5,6,7) dist] .
  let ?st' = "snd (?R (\<lambda>_. None))"
  have at: "snd (?R fault) = (if fst (?R fault) = None then ?st' else st)" for fault
    using ReplaceFileWithParts_atomic [of now fault st "uf_ownerID f" "file_ID ex" "uf_name f"
        "in_TelegramFileID first" "in_FileUniqueID first" ?S "uf_mimeType f2" "uf_parts f2"] .
  have "Close tg now (\<lambda>_. None) st f = (None, f2, ?st')"
    using cl [of "\<lambda>_. None"] ok by simp
  moreover have "files ?st' =
      map (\<lambda>g. if file_ID g = file_ID ex \<and> file_UserID g = uf_ownerID f
                then replaced_row g (uf_name f) (in_TelegramFileID (hd (uf_parts f2)))
                       (in_FileUniqueID (hd (uf_parts f2))) ?S (uf_mimeType f2)
                else g) (files st)"
    using ok fr by simp
  moreover have "file_parts ?st' =
      filter (\<lambda>p. part_FileID p \<noteq> file_ID ex) (file_parts st) @
      (if ?M < ?S then part_rows now (file_ID ex) (seq_file_parts st) (uf_parts f2) else [])"
    using ok many by simp
  moreover have "directories ?st' = directories st \<and> shares ?st' = shares st"
    using ok by simp
  moreover have "\<forall>fault. snd (snd (Close tg now fault st f)) =
      (if fst (Close tg now fault st f) = None then ?st' else st)"
    using cl at by simp
  ultimately show ?thesis using f2(2,3,4,5) by blast
qed

lemma replaced_lookup:
  assumes "keys_unique st" and "GetFileByID st owner fid = Inr row"
    and "files st' =
           map (\<lambda>g. if file_ID g = fid \<and> file_UserID g = owner
                     then replaced_row g name tfid uniq sz mime else g) (files st)"
  shows "GetFileByID st' owner fid = Inr (replaced_row row name tfid uniq sz mime)"
    and "map file_ID (files st') = map file_ID (files st)"
proof -
  let ?g = "\<lambda>g. if file_ID g = fid \<and> file_UserID g = owner
                 then replaced_row g name tfid uniq sz mime else g"
  have row: "row \<in> set (files st)" "file_ID row = fid" "file_UserID row = owner"
    using assms(2) by (auto simp: GetFileByID_def dest: first_row_Inr)
  have dk: "distinct (map file_ID (files st))"
    using assms(1) by (simp add: keys_unique_def)
  have key: "file_ID (?g x) = file_ID x" for x
    by (simp add: replaced_row_def)
  have grow: "?g row = replaced_row row name tfid uniq sz mime" using row by simp
  show "GetFileByID st' owner fid = Inr (replaced_row row name tfid uniq sz mime)"
    unfolding GetFileByID_def assms(3)
    using first_row_map_key [of file_ID "files st" row fid ?g "\<lambda>f. file_UserID f = owner"]
      dk row key grow
    by (simp add: replaced_row_def)
  show "map file_ID (files st') = map file_ID (files st)"
    unfolding assms(3) by (simp add: comp_def replaced_row_def)
qed

section \<open>Name conflicts\<close>

text \<open>
  C3. A create, rename or move into a parent where a sibling of the owner (a directory or a
  file; names compared byte by byte, so case-sensitively) already has the target name fails
  with the name-conflict error and leaves the store as it was.  The creations are
  \<open>CreateDir\<close>, \<open>CreateFile\<close> and \<open>CreateFileWithParts\<close>.  For \<open>RenameDir\<close>, \<open>RenameFile\<close> and
  \<open>MoveFile\<close> the store satisfies the namespace invariant and the sibling is another row
  than the one renamed or moved.  For \<open>MoveDir\<close>, moreover, the owner's root exists, the
  primary keys are unique, the directory is not the root, and the destination is neither
  the directory nor in its subtree (of finite depth \<open>k\<close>), so that no other refusal applies.
\<close>

theorem name_conflict_refused:
  "(name_taken s u p n None None \<longrightarrow>
       CreateDir now s u p n = (Inl ErrNameConflict, s)
     \<and> CreateFile now s u p n fid fuid sz mime = (Inl ErrNameConflict, s)
     \<and> CreateFileWithParts now fault s u p n fid fuid sz mime parts = (Inl ErrNameConflict, s))
   \<and> (names_unique s \<and> GetDirByID s u d = Inr drow \<and> dir_ParentID drow = Some dp \<and>
        name_taken s u dp dn (Some d) None \<longrightarrow>
       RenameDir now s u d dn = (Some ErrNameConflict, s))
   \<and> (names_unique s \<and> GetFileByID s u f = Inr frow \<and>
        name_taken s u (file_DirID frow) fn None (Some f) \<longrightarrow>
       RenameFile s u f fn = (Some ErrNameConflict, s))
   \<and> (names_unique s \<and> keys_unique s \<and> has_root s u \<and> GetDirByID s u d = Inr drow \<and>
        dir_ParentID drow = Some dp \<and> d \<noteq> mp \<and> level (directories s) k [d] = [] \<and>
        mp \<notin> set (below (directories s) k [d]) \<and>
        name_taken s u mp (dir_Name drow) (Some d) None \<longrightarrow>
       MoveDir now s u d mp = Some (Some ErrNameConflict, s))
   \<and> (names_unique s \<and> GetFileByID s u f = Inr frow \<and>
        name_taken s u fp (file_Name frow) None (Some f) \<longrightarrow>
       MoveFile s u f fp = (Some ErrNameConflict, s))"
proof -
  have "MoveDir now s u d mp = Some (Some ErrNameConflict, s)"
    if "names_unique s" "keys_unique s" "has_root s u" "GetDirByID s u d = Inr drow"
      "dir_ParentID drow = Some dp" "d \<noteq> mp" "level (directories s) k [d] = []"
      "mp \<notin> set (below (directories s) k [d])"
      "name_taken s u mp (dir_Name drow) (Some d) None"
    using MoveDir_conflict [of s u d drow mp k now] that by simp
  then show ?thesis
    using CreateDir_conflict [of s u p n now] CreateFile_conflict [of s u p n now fid fuid sz mime]
      CreateFileWithParts_conflict [of s u p n now fault fid fuid sz mime parts]
      RenameDir_conflict [of s u d drow dp dn now] RenameFile_conflict [of s u f frow fn]
      MoveFile_conflict [of s u f frow fp]
    by blast
qed

theorem name_conflict_refused_witness:
  "CreateDir 9 store_ex 1 1 ''docs'' = (Inl ErrNameConflict, store_ex)
   \<and> CreateFile 9 store_ex 1 1 ''docs'' ''blobX'' ''uX'' 1 [] = (Inl ErrNameConflict, store_ex)
   \<and> CreateFileWithParts 9 (\<lambda>_. None) store_ex 1 1 ''docs'' ''blobX'' ''uX'' 1 [] []
        = (Inl ErrNameConflict, store_ex)
   \<and> RenameDir 9 store_ex 1 2 ''pics'' = (Some ErrNameConflict, store_ex)
   \<and> RenameFile store_ex 1 1 ''b.txt'' = (Some ErrNameConflict, store_ex)
   \<and> MoveDir 9 store_ex 1 2 3 = Some (Some ErrNameConflict, store_ex)
   \<and> MoveFile store_ex 1 1 3 = (Some ErrNameConflict, store_ex)"
proof -
  let ?drow = "\<lparr>dir_ID = 2, dir_UserID = 1, dir_ParentID = Some 1, dir_Name = ''docs'',
                 dir_CreatedAt = 2, dir_UpdatedAt = 2\<rparr>"
  let ?frow = "\<lparr>file_ID = 1, file_UserID = 1, file_DirID = 2, file_Name = ''a.txt'',
                 file_FileID = ''blobA'', file_FileUniqueID = ''uA'', file_Size = 10,
                 file_MimeType = ''text/plain'', file_CreatedAt = 6\<rparr>"
  have h1: "name_taken store_ex 1 1 ''docs'' None None"
    by (simp add: name_taken_def store_ex_def)
  have h2: "names_unique store_ex" "keys_unique store_ex" "has_root store_ex 1"
    by (simp_all add: names_unique_def keys_unique_def has_root_def store_ex_def)
  have h3: "GetDirByID store_ex 1 2 = Inr ?drow" "GetFileByID store_ex 1 1 = Inr ?frow"
    by (simp_all add: GetDirByID_def GetFileByID_def first_row_def store_ex_def)
  have h4: "name_taken store_ex 1 1 ''pics'' (Some 2) None"
    "name_taken store_ex 1 (file_DirID ?frow) ''b.txt'' None (Some 1)"
    "name_taken store_ex 1 3 (dir_Name ?drow) (Some 2) None"
    "name_taken store_ex 1 3 (file_Name ?frow) None (Some 1)"
    by (simp_all add: name_taken_def store_ex_def)
  have h5: "level (directories store_ex) 2 [2] = []"
    "3 \<notin> set (below (directories store_ex) 2 [2])"
    by (simp_all add: store_ex_def child_ids_def below_def eval_nat_numeral)
  show ?thesis
    using name_conflict_refused [where s = store_ex and u = 1 and p = 1 and n = "''docs''"
        and now = 9 and fid = "''blobX''" and fuid = "''uX''" and sz = 1 and mime = "[]"
        and fault = "\<lambda>_. None" and parts = "[]" and d = 2 and drow = ?drow and dp = 1
        and dn = "''pics''" and f = 1 and frow = ?frow and fn = "''b.txt''" and mp = 3
        and k = 2 and fp = 3]
      h1 h2 h3 h4 h5
    by simp
qed

section \<open>The root directory\<close>

text \<open>
  \<open>MoveDir\<close> and \<open>DeleteDirRecursive\<close> compare the directory with the owner's root and refuse
  it before anything is read or written.
\<close>

lemma MoveDir_root_refused:
  "has_root s u \<Longrightarrow> fst (GetRootDirID now s u) = Inr r
     \<Longrightarrow> MoveDir now s u r p = Some (Some ErrMoveRoot, s)"
  using has_root_GetRootDirID [of s u now] by (auto simp: MoveDir_def)

lemma DeleteDirRecursive_root_refused:
  "has_root s u \<Longrightarrow> fst (GetRootDirID now s u) = Inr r
     \<Longrightarrow> DeleteDirRecursive now fault1 fault2 s u r = Some (Some ErrDeleteRoot, s)"
  using has_root_GetRootDirID [of s u now] by (auto simp: DeleteDirRecursive_def)

text \<open>
  C4 at the input \<open>RenameDir(owner 1, directory 1, "x")\<close> on \<open>store_ex\<close>, where directory 1 is
  the root of owner 1: \<open>RenameDir\<close> has no such comparison.  The root has no parent, the name
  check runs against parent 0 where no row lives, and the UPDATE renames the root: the call
  returns no error and the root row then has the name "x".
\<close>

theorem RenameDir_renames_root:
  "GetRootDirID 9 store_ex 1 = (Inr 1, store_ex)
   \<and> fst (RenameDir 9 store_ex 1 1 ''x'') = None
   \<and> GetDirByID (snd (RenameDir 9 store_ex 1 1 ''x'')) 1 1 =
        Inr \<lparr>dir_ID = 1, dir_UserID = 1, dir_ParentID = None, dir_Name = ''x'',
              dir_CreatedAt = 1, dir_UpdatedAt = 9\<rparr>
   \<and> MoveDir 9 store_ex 1 1 3 = Some (Some ErrMoveRoot, store_ex)
   \<and> DeleteDirRecursive 9 None None store_ex 1 1 = Some (Some ErrDeleteRoot, store_ex)"
  by code_simp

section \<open>Moving a directory into its own subtree\<close>

text \<open>
  C5. Let \<open>d\<close> be a directory of the owner whose subtree has finite depth (\<open>n\<close> levels), and
  let the destination \<open>p\<close> be \<open>d\<close> itself or a descendant of \<open>d\<close> at any depth.  Then
  \<open>MoveDir(d, p)\<close> returns an error ("cannot move root directory" when \<open>d\<close> is the root, else
  "cannot move directory into itself" when \<open>p = d\<close>, else "cannot move directory into its
  descendant"), and the row of \<open>d\<close>, so its parent, is what it was; the store is the one
  \<open>GetRootDirID\<close> leaves, which is the store before the call when the owner has a root.  The
  check enumerates the subtree of \<open>d\<close> (the query returns \<open>d\<close> and its descendants level by
  level) and \<open>p\<close> is a member of that enumeration.
\<close>

theorem MoveDir_into_subtree_refused:
  assumes "keys_unique s"
    and "GetDirByID s u d = Inr row"
    and "level (directories s) n [d] = []"
    and "p = d \<or> descendant (directories s) d p"
  shows "MoveDir now s u d p =
           Some (Some (if fst (GetRootDirID now s u) = Inr d then ErrMoveRoot
                       else if d = p then ErrMoveIntoItself else ErrMoveIntoDescendant),
                 snd (GetRootDirID now s u))
         \<and> GetDirByID (snd (GetRootDirID now s u)) u d = Inr row
         \<and> (has_root s u \<longrightarrow> snd (GetRootDirID now s u) = s)
         \<and> subtree s d u = Some (below (directories s) n [d])
         \<and> p \<in> set (below (directories s) n [d])"
proof -
  have "\<exists>k. p \<in> set (level (directories s) k [d])"
  proof (cases "p = d")
    case True
    then have "p \<in> set (level (directories s) 0 [d])" by simp
    then show ?thesis by blast
  next
    case False
    then show ?thesis using assms(4) descendant_level [of "directories s" d p] by blast
  qed
  then have mem: "p \<in> set (below (directories s) n [d])"
    using level_in_below [OF assms(3)] by blast
  show ?thesis
    using MoveDir_subtree [OF assms(1,2,3) mem, of now] subtree_owned [OF assms(1,2,3)] mem
      has_root_GetRootDirID_same [of s u now]
    by simp
qed

theorem MoveDir_into_subtree_refused_witness:
  "descendant (directories store_ex) 2 4
   \<and> MoveDir 9 store_ex 1 2 4 = Some (Some ErrMoveIntoDescendant, store_ex)
   \<and> MoveDir 9 store_ex 1 2 2 = Some (Some ErrMoveIntoItself, store_ex)
   \<and> GetDirByID store_ex 1 2 =
        Inr \<lparr>dir_ID = 2, dir_UserID = 1, dir_ParentID = Some 1, dir_Name = ''docs'',
              dir_CreatedAt = 2, dir_UpdatedAt = 2\<rparr>
   \<and> subtree store_ex 2 1 = Some [2, 4]"
proof -
  let ?row = "\<lparr>dir_ID = 2, dir_UserID = 1, dir_ParentID = Some 1, dir_Name = ''docs'',
                dir_CreatedAt = 2, dir_UpdatedAt = 2\<rparr>"
  have k: "keys_unique store_ex"
    by (simp add: keys_unique_def store_ex_def)
  have g: "GetDirByID store_ex 1 2 = Inr ?row"
    by (simp add: GetDirByID_def first_row_def store_ex_def)
  have l: "level (directories store_ex) 2 [2] = []"
    by (simp add: store_ex_def child_ids_def eval_nat_numeral)
  have b: "below (directories store_ex) 2 [2] = [2, 4]"
    by (simp add: store_ex_def child_ids_def below_def eval_nat_numeral)
  have d: "descendant (directories store_ex) 2 4"
    by (rule descendant.child [of "\<lparr>dir_ID = 4, dir_UserID = 1, dir_ParentID = Some 2,
          dir_Name = ''sub'', dir_CreatedAt = 4, dir_UpdatedAt = 4\<rparr>"])
       (simp_all add: store_ex_def)
  have r: "GetRootDirID 9 store_ex 1 = (Inr 1, store_ex)"
    by (simp add: GetRootDirID_def store_ex_def)
  have "MoveDir 9 store_ex 1 2 4 = Some (Some ErrMoveIntoDescendant, store_ex)"
    using MoveDir_into_subtree_refused [OF k g l, of 4 9] d r by simp
  moreover have "MoveDir 9 store_ex 1 2 2 = Some (Some ErrMoveIntoItself, store_ex)"
    using MoveDir_into_subtree_refused [OF k g l, of 2 9] r by simp
  moreover have "subtree store_ex 2 1 = Some [2, 4]"
    using MoveDir_into_subtree_refused [OF k g l, of 2 9] b by simp
  ultimately show ?thesis using d g by simp
qed

section \<open>Recursive deletion\<close>

text \<open>
  C6 at the input \<open>DeleteDirRecursive(owner 1, directory 2)\<close> on \<open>store_ex\<close>, with a fault on
  the second statement.  \<open>DeleteDirRecursive\<close> opens no transaction: it runs the DELETE on
  \<open>files\<close> and then the DELETE on \<open>directories\<close> as two statements of their own, each
  committed when it returns.  The call returns the error of the second statement although
  the files of the subtree (files 1 and 2, with their parts and shares) are gone; the
  directories of the subtree (2 and 4) are still there.  The other operations of the store
  that write more than once (\<open>EnsureUser\<close>, \<open>CreateFileWithParts\<close>, \<open>ReplaceFileWithParts\<close>)
  run in a transaction that is rolled back on error.
\<close>

theorem DeleteDirRecursive_not_atomic:
  "DeleteDirRecursive 9 None (Some ErrStorage) store_ex 1 2 =
     Some (Some ErrStorage,
           store_ex\<lparr>files := [\<lparr>file_ID = 3, file_UserID = 1, file_DirID = 3, file_Name = ''a.txt'',
                        file_FileID = ''blobC'', file_FileUniqueID = ''uC'', file_Size = 3,
                        file_MimeType = ''text/plain'', file_CreatedAt = 8\<rparr>],
                    file_parts := [], shares := []\<rparr>)"
  by code_simp

text \<open>
  The run without fault.  Let \<open>d\<close> be a directory of the owner other than a root, in a store
  with unique primary keys where the owner's root exists and the subtree of \<open>d\<close> has finite
  depth (\<open>n\<close> levels).  When neither statement meets a fault, \<open>DeleteDirRecursive(d)\<close> returns
  no error; the directory rows left are those outside the subtree of \<open>d\<close> and the file rows
  left are those whose directory is outside it; afterwards a lookup by id of \<open>d\<close> or of any
  descendant of \<open>d\<close>, and a lookup by id or by name of any file that was in one of them,
  returns \<open>sql.ErrNoRows\<close>, for every user.
\<close>

lemma DeleteDirRecursive_removes_subtree:
  assumes "keys_unique s" and "has_root s u" and "GetDirByID s u d = Inr row"
    and "dir_ParentID row \<noteq> None" and "level (directories s) n [d] = []"
  shows "\<exists>s'. DeleteDirRecursive now None None s u d = Some (None, s')
           \<and> directories s' =
               filter (\<lambda>r. dir_ID r \<notin> set (below (directories s) n [d])) (directories s)
           \<and> files s' =
               filter (\<lambda>f. file_DirID f \<notin> set (below (directories s) n [d])) (files s)
           \<and> (\<forall>x v. x = d \<or> descendant (directories s) d x \<longrightarrow>
                  GetDirByID s' v x = Inl ErrNoRows)
           \<and> (\<forall>f v. f \<in> set (files s) \<and>
                   (file_DirID f = d \<or> descendant (directories s) d (file_DirID f)) \<longrightarrow>
                  GetFileByID s' v (file_ID f) = Inl ErrNoRows
                  \<and> GetFileByName s' v (file_DirID f) (file_Name f) = Inl ErrNoRows)"
proof -
  let ?B = "below (directories s) n [d]"
  let ?s' = "delete_dirs_in ?B (delete_files_in ?B s)"
  have run: "DeleteDirRecursive now None None s u d = Some (None, ?s')"
    using DeleteDirRecursive_ok [OF assms] .
  have ds: "directories ?s' = filter (\<lambda>r. dir_ID r \<notin> set ?B) (directories s)"
    by (simp add: delete_dirs_in_fields delete_files_in_fields)
  have fs: "files ?s' = filter (\<lambda>f. file_DirID f \<notin> set ?B) (files s)"
    by (simp add: delete_dirs_in_fields delete_files_in_fields)
  have dirs_gone: "GetDirByID ?s' v x = Inl ErrNoRows"
    if "x = d \<or> descendant (directories s) d x" for x v
  proof -
    have "x \<in> set ?B" using in_below_iff [OF assms(5) that] .
    then show ?thesis unfolding GetDirByID_def ds by (intro first_row_none) auto
  qed
  have files_gone: "GetFileByID ?s' v (file_ID f) = Inl ErrNoRows
      \<and> GetFileByName ?s' v (file_DirID f) (file_Name f) = Inl ErrNoRows"
    if "f \<in> set (files s)" "file_DirID f = d \<or> descendant (directories s) d (file_DirID f)"
    for f v
  proof -
    have b: "file_DirID f \<in> set ?B" using in_below_iff [OF assms(5) that(2)] .
    have "g = f" if "g \<in> set (files s)" "file_ID g = file_ID f" for g
      using assms(1) that \<open>f \<in> set (files s)\<close>
      by (auto simp: keys_unique_def distinct_map dest: inj_onD)
    then have "GetFileByID ?s' v (file_ID f) = Inl ErrNoRows"
      unfolding GetFileByID_def fs using b by (intro first_row_none) auto
    moreover have "GetFileByName ?s' v (file_DirID f) (file_Name f) = Inl ErrNoRows"
      unfolding GetFileByName_def fs using b by (intro first_row_none) auto
    ultimately show ?thesis by simp
  qed
  show ?thesis using run ds fs dirs_gone files_gone by blast
qed

lemma DeleteDirRecursive_removes_subtree_example:
  "\<exists>s'. DeleteDirRecursive 9 None None store_ex 1 2 = Some (None, s')
      \<and> map dir_ID (directories s') = [1, 3, 5]
      \<and> map file_ID (files s') = [3]
      \<and> GetDirByID s' 1 2 = Inl ErrNoRows
      \<and> GetDirByID s' 1 4 = Inl ErrNoRows
      \<and> GetFileByID s' 1 1 = Inl ErrNoRows
      \<and> GetFileByName s' 1 2 ''b.txt'' = Inl ErrNoRows"
proof -
  let ?row = "\<lparr>dir_ID = 2, dir_UserID = 1, dir_ParentID = Some 1, dir_Name = ''docs'',
                dir_CreatedAt = 2, dir_UpdatedAt = 2\<rparr>"
  let ?f1 = "\<lparr>file_ID = 1, file_UserID = 1, file_DirID = 2, file_Name = ''a.txt'',
               file_FileID = ''blobA'', file_FileUniqueID = ''uA'', file_Size = 10,
               file_MimeType = ''text/plain'', file_CreatedAt = 6\<rparr>"
  let ?f2 = "\<lparr>file_ID = 2, file_UserID = 1, file_DirID = 2, file_Name = ''b.txt'',
               file_FileID = ''blobB0'', file_FileUniqueID = ''uB0'', file_Size = 7,
               file_MimeType = ''text/plain'', file_CreatedAt = 7\<rparr>"
  have k: "keys_unique store_ex" "has_root store_ex 1"
    by (simp_all add: keys_unique_def has_root_def store_ex_def)
  have g: "GetDirByID store_ex 1 2 = Inr ?row" "dir_ParentID ?row \<noteq> None"
    by (simp_all add: GetDirByID_def first_row_def store_ex_def)
  have l: "level (directories store_ex) 2 [2] = []"
    by (simp add: store_ex_def child_ids_def eval_nat_numeral)
  have b: "below (directories store_ex) 2 [2] = [2, 4]"
    by (simp add: store_ex_def child_ids_def below_def eval_nat_numeral)
  have d: "descendant (directories store_ex) 2 4"
    by (rule descendant.child [of "\<lparr>dir_ID = 4, dir_UserID = 1, dir_ParentID = Some 2,
          dir_Name = ''sub'', dir_CreatedAt = 4, dir_UpdatedAt = 4\<rparr>"])
       (simp_all add: store_ex_def)
  have f: "?f1 \<in> set (files store_ex)" "?f2 \<in> set (files store_ex)"
    by (simp_all add: store_ex_def)
  obtain s' where s': "DeleteDirRecursive 9 None None store_ex 1 2 = Some (None, s')"
      "directories s' =
         filter (\<lambda>r. dir_ID r \<notin> set (below (directories store_ex) 2 [2])) (directories store_ex)"
      "files s' =
         filter (\<lambda>f. file_DirID f \<notin> set (below (directories store_ex) 2 [2])) (files store_ex)"
      "\<forall>x v. x = 2 \<or> descendant (directories store_ex) 2 x \<longrightarrow>
          GetDirByID s' v x = Inl ErrNoRows"
      "\<forall>f v. f \<in> set (files store_ex) \<and>
           (file_DirID f = 2 \<or> descendant (directories store_ex) 2 (file_DirID f)) \<longrightarrow>
          GetFileByID s' v (file_ID f) = Inl ErrNoRows
          \<and> GetFileByName s' v (file_DirID f) (file_Name f) = Inl ErrNoRows"
    using DeleteDirRecursive_removes_subtree [OF k g l, of 9] by blast
  have "map dir_ID (directories s') = [1, 3, 5]" "map file_ID (files s') = [3]"
    unfolding s'(2,3) b by (simp_all add: store_ex_def)
  moreover have "GetDirByID s' 1 2 = Inl ErrNoRows" "GetDirByID s' 1 4 = Inl ErrNoRows"
    using s'(4) d by simp_all
  moreover have "GetFileByID s' 1 1 = Inl ErrNoRows"
    using s'(5) f(1) by fastforce
  moreover have "GetFileByName s' 1 2 ''b.txt'' = Inl ErrNoRows"
    using s'(5) f(2) by fastforce
  ultimately show ?thesis using s'(1) by (intro exI [of _ s']) simp
qed

section \<open>Replacing a file\<close>



section \<open>Share expiry\<close>

text \<open>
  C8. The outcome of \<open>ValidateShare\<close> depends on nothing but \<open>ExpiresAt\<close> and the current
  time: two shares with the same \<open>ExpiresAt\<close> validate alike at the same instant.  A share
  with \<open>ExpiresAt = T\<close> validates (returns no error) at every instant before \<open>T\<close> and returns
  the "share expired" error at every instant after \<open>T\<close>; a share without \<open>ExpiresAt\<close>
  validates at every instant.
\<close>

theorem ValidateShare_expiry:
  "(share_ExpiresAt sh = share_ExpiresAt sh' \<longrightarrow> ValidateShare now sh = ValidateShare now sh')
   \<and> (share_ExpiresAt sh = Some T \<and> now < T \<longrightarrow> ValidateShare now sh = None)
   \<and> (share_ExpiresAt sh = Some T \<and> T < now \<longrightarrow> ValidateShare now sh = Some ErrShareExpired)
   \<and> (share_ExpiresAt sh = None \<longrightarrow> ValidateShare now sh = None)"
  by (simp add: ValidateShare_def)

theorem ValidateShare_expiry_witness:
  "ValidateShare 99 \<lparr>share_ID = 1, share_FileID = 7, share_Token = ''tok'',
      share_ExpiresAt = Some 100, share_Uses = 0, share_CreatedAt = 5\<rparr> = None
   \<and> ValidateShare 101 \<lparr>share_ID = 1, share_FileID = 7, share_Token = ''tok'',
      share_ExpiresAt = Some 100, share_Uses = 0, share_CreatedAt = 5\<rparr> = Some ErrShareExpired
   \<and> ValidateShare 101 \<lparr>share_ID = 2, share_FileID = 7, share_Token = ''abc'',
      share_ExpiresAt = None, share_Uses = 3, share_CreatedAt = 5\<rparr> = None"
proof -
  let ?a = "\<lparr>share_ID = 1, share_FileID = 7, share_Token = ''tok'',
      share_ExpiresAt = Some (100::int), share_Uses = 0, share_CreatedAt = 5\<rparr>"
  let ?b = "\<lparr>share_ID = 2, share_FileID = 7, share_Token = ''abc'',
      share_ExpiresAt = None, share_Uses = 3, share_CreatedAt = 5\<rparr>"
  have "ValidateShare 99 ?a = None"
    using ValidateShare_expiry [of ?a ?a 99 100] by simp
  moreover have "ValidateShare 101 ?a = Some ErrShareExpired"
    using ValidateShare_expiry [of ?a ?a 101 100] by simp
  moreover have "ValidateShare 101 ?b = None"
    using ValidateShare_expiry [of ?b ?b 101 100] by simp
  ultimately show ?thesis by simp
qed

section \<open>Uploads: the empty upload\<close>

text \<open>
  C10. Take any stream that \<open>newUploadFile\<close> makes (for a new file or for the replacement of
  an existing one) and let every \<open>Write\<close> on it carry no byte: the writes return without
  error and leave the stream as it was.  \<open>Close\<close> then returns the "empty upload" error and
  the store is the one before the call, whatever the remote service and the database driver
  would have answered: no file row and no part row is written, and no file row is replaced.
\<close>

theorem Close_empty_upload:
  "Write_chunks tg (newUploadFile owner chat dir name existing maxPart contentLength)
       (replicate k [])
     = Some (Inr (newUploadFile owner chat dir name existing maxPart contentLength))
   \<and> Close tg now fault st (newUploadFile owner chat dir name existing maxPart contentLength)
     = (Some ErrEmptyUpload,
        (newUploadFile owner chat dir name existing maxPart contentLength)\<lparr>uf_closed := True\<rparr>,
        st)"
proof -
  let ?f = "newUploadFile owner chat dir name existing maxPart contentLength"
  have "Write_chunks tg f (replicate k []) = Some (Inr f)" for f
    by (induction k) (simp_all add: Write_def Write_loop.simps)
  moreover have "Close tg now fault st ?f = (Some ErrEmptyUpload, ?f\<lparr>uf_closed := True\<rparr>, st)"
    by (simp add: Close_def newUploadFile_def Let_def finishPart_def)
  ultimately show ?thesis by simp
qed

section \<open>Uploads: the parts recorded\<close>

text \<open>
  C1 at \<open>S = 0\<close>: a stream closed with no byte written has \<open>S \<le> M\<close>, and \<open>Close\<close> returns
  "empty upload": no file row is recorded.
\<close>

theorem empty_upload_records_nothing:
  "fst (Close tg_accept 50 (\<lambda>_. None) store_ex (newUploadFile 1 77 2 ''new.bin'' None 3 0))
     = Some ErrEmptyUpload
   \<and> snd (snd (Close tg_accept 50 (\<lambda>_. None) store_ex
                 (newUploadFile 1 77 2 ''new.bin'' None 3 0))) = store_ex
   \<and> upload_data (newUploadFile 1 77 2 ''new.bin'' None 3 0) = []"
  by (simp add: Close_def newUploadFile_def finishPart_def upload_data_def)

text \<open>
  C1, amended to \<open>S > 0\<close>.  The file \<open>name\<close> is uploaded into directory \<open>dir\<close> of \<open>owner\<close>: the
  stream is made by \<open>newUploadFile\<close> with the configured part size \<open>maxPart\<close>, so its maximum
  part size is \<open>M = maxPart\<close>, or 1900 MiB when \<open>maxPart \<le> 0\<close>; the client writes the chunks
  \<open>chunks\<close>, \<open>S > 0\<close> bytes in all, and closes.  Every transfer succeeds, nothing is cancelled
  and the store meets no fault.  The stream is either for a new file (\<open>existing = None\<close>: the
  name is free in \<open>dir\<close>, and \<open>owner\<close> and \<open>dir\<close> exist) or for the replacement of the file
  \<open>ex\<close> found under that name when the stream was opened (\<open>existing = Some ex\<close>: the row of \<open>ex\<close>
  is still in the store, and no directory and no other file of its directory has the name).
  Then every \<open>Write\<close> and the \<open>Close\<close> return without error, and in both cases:
  \<^item> the stream has recorded \<open>ceil(S/M)\<close> parts, numbered \<open>0, 1, ...\<close>, each with the
    reference of the document transferred for it, and the bytes of these documents,
    concatenated in that order, are the bytes written.
  For a new file (\<open>CreateFile\<close>, \<open>CreateFileWithParts\<close>):
  \<^item> one row is added to \<open>files\<close>, with the reference of the first document and size \<open>S\<close>;
  \<^item> when \<open>S > M\<close> the rows added to \<open>file_parts\<close> are those of the \<open>ceil(S/M)\<close> parts, and
    when \<open>S \<le> M\<close> no row is added to \<open>file_parts\<close>.
  For a replacement (\<open>ReplaceFileWithParts\<close>):
  \<^item> the row of the file is the one it was, with the name of the stream, the reference of
    the first document, size \<open>S\<close> and the mime type of the upload; no row of \<open>files\<close> is added
    or removed;
  \<^item> the part rows the file had are deleted; when \<open>S > M\<close> the part rows of the file are those
    of the \<open>ceil(S/M)\<close> parts, and when \<open>S \<le> M\<close> the file has no part row; the part rows of
    other files are untouched.
\<close>

theorem upload_records_parts:
  assumes "tg_ok tg"
    and "f0 = newUploadFile owner chat dir name existing maxPart contentLength"
    and "M = uf_maxPartSize f0"
    and "S = int (length (concat chunks))"
    and "0 < S"
    and "case existing of
           None \<Rightarrow>
             \<not> name_taken st owner dir name None None \<and> owner \<in> set (users st)
             \<and> dir \<in> set (map dir_ID (directories st)) \<and> parts_issued st
         | Some ex \<Rightarrow>
             keys_unique st \<and> file_ID ex \<noteq> 0
             \<and> (\<exists>row. GetFileByID st owner (file_ID ex) = Inr row
                  \<and> \<not> name_taken st owner (file_DirID row) name None (Some (file_ID ex)))"
  shows "\<exists>f1 f2 st'.
           Write_chunks tg f0 chunks = Some (Inr f1)
           \<and> Close tg now (\<lambda>_. None) st f1 = (None, f2, st')
           \<and> int (length (uf_parts f2)) = (S + M - 1) div M
           \<and> map in_PartIndex (uf_parts f2) = map int [0..<length (uf_parts f2)]
           \<and> map in_TelegramFileID (uf_parts f2) = map fst (uf_sent f2)
           \<and> concat (map snd (uf_sent f2)) = concat chunks
           \<and> (case existing of
                 None \<Rightarrow>
                   files st' = files st @
                     [\<lparr>file_ID = seq_files st + 1, file_UserID = owner, file_DirID = dir,
                       file_Name = name, file_FileID = in_TelegramFileID (hd (uf_parts f2)),
                       file_FileUniqueID = in_FileUniqueID (hd (uf_parts f2)),
                       file_Size = S, file_MimeType = default_mime (uf_mimeType f2),
                       file_CreatedAt = now\<rparr>]
                   \<and> file_parts st' = file_parts st @
                       (if M < S
                        then part_rows now (seq_files st + 1) (seq_file_parts st) (uf_parts f2)
                        else [])
                   \<and> length (part_rows now (seq_files st + 1) (seq_file_parts st)
                               (uf_parts f2)) = length (uf_parts f2)
               | Some ex \<Rightarrow>
                   (\<exists>row. GetFileByID st owner (file_ID ex) = Inr row
                      \<and> GetFileByID st' owner (file_ID ex) =
                          Inr (replaced_row row name (in_TelegramFileID (hd (uf_parts f2)))
                                 (in_FileUniqueID (hd (uf_parts f2))) S (uf_mimeType f2)))
                   \<and> map file_ID (files st') = map file_ID (files st)
                   \<and> file_parts st' =
                       filter (\<lambda>p. part_FileID p \<noteq> file_ID ex) (file_parts st) @
                       (if M < S
                        then part_rows now (file_ID ex) (seq_file_parts st) (uf_parts f2)
                        else [])
                   \<and> length (part_rows now (file_ID ex) (seq_file_parts st) (uf_parts f2))
                       = length (uf_parts f2))"
proof -
  have "0 < uf_maxPartSize f0" "upload_data f0 = []"
    using assms(2) by (simp_all add: newUploadFile_def Let_def upload_data_def)
  then have w0: "writing f0"
    using assms(2) by (simp add: writing_def newUploadFile_def Let_def upload_data_def)
  obtain f1 where f1: "Write_chunks tg f0 chunks = Some (Inr f1)" "writing f1"
      "upload_data f1 = upload_data f0 @ concat chunks" "same_target f0 f1"
    using Write_chunks_writing [OF assms(1) w0] by blast
  have d: "upload_data f1 = concat chunks"
    using f1(3) \<open>upload_data f0 = []\<close> by simp
  have t: "uf_ownerID f1 = owner" "uf_parentDirID f1 = dir" "uf_name f1 = name"
      "uf_existing f1 = existing" "uf_maxPartSize f1 = M"
    using f1(4) assms(2,3) by (simp_all add: same_target_def newUploadFile_def Let_def)
  have ne: "upload_data f1 \<noteq> []" using d assms(4,5) by auto
  have sz: "int (length (upload_data f1)) = S" using d assms(4) by simp
  show ?thesis
  proof (cases existing)
    case None
    then have pre: "\<not> name_taken st owner dir name None None" "owner \<in> set (users st)"
        "dir \<in> set (map dir_ID (directories st))" "parts_issued st"
      using assms(6) by simp_all
    have e: "uf_existing f1 = None" using t(4) None by simp
    obtain f2 st' where c: "Close tg now (\<lambda>_. None) st f1 = (None, f2, st')"
        "concat (map snd (uf_sent f2)) = upload_data f1"
        "int (length (uf_parts f2))
           = (int (length (upload_data f1)) + uf_maxPartSize f1 - 1) div uf_maxPartSize f1"
        "map in_PartIndex (uf_parts f2) = map int [0..<length (uf_parts f2)]"
        "map in_TelegramFileID (uf_parts f2) = map fst (uf_sent f2)"
        "files st' = files st @
           [\<lparr>file_ID = seq_files st + 1, file_UserID = uf_ownerID f1,
             file_DirID = uf_parentDirID f1, file_Name = uf_name f1,
             file_FileID = in_TelegramFileID (hd (uf_parts f2)),
             file_FileUniqueID = in_FileUniqueID (hd (uf_parts f2)),
             file_Size = int (length (upload_data f1)),
             file_MimeType = default_mime (uf_mimeType f2), file_CreatedAt = now\<rparr>]"
        "file_parts st' = file_parts st @
           (if uf_maxPartSize f1 < int (length (upload_data f1))
            then part_rows now (seq_files st + 1) (seq_file_parts st) (uf_parts f2) else [])"
      using Close_new_file [OF f1(2) assms(1) ne e, of st now] pre t(1,2,3)
      by auto
    show ?thesis
      using f1(1) c d t(1,2,3,5) sz None
      by (intro exI [of _ f1] exI [of _ f2] exI [of _ st']) simp
  next
    case (Some ex)
    then obtain row where pre: "keys_unique st" "file_ID ex \<noteq> 0"
        "GetFileByID st owner (file_ID ex) = Inr row"
        "\<not> name_taken st owner (file_DirID row) name None (Some (file_ID ex))"
      using assms(6) by auto
    have e: "uf_existing f1 = Some ex" using t(4) Some by simp
    obtain f2 st' where c: "Close tg now (\<lambda>_. None) st f1 = (None, f2, st')"
        "concat (map snd (uf_sent f2)) = upload_data f1"
        "int (length (uf_parts f2))
           = (int (length (upload_data f1)) + uf_maxPartSize f1 - 1) div uf_maxPartSize f1"
        "map in_PartIndex (uf_parts f2) = map int [0..<length (uf_parts f2)]"
        "map in_TelegramFileID (uf_parts f2) = map fst (uf_sent f2)"
        "files st' =
           map (\<lambda>g. if file_ID g = file_ID ex \<and> file_UserID g = uf_ownerID f1
                     then replaced_row g (uf_name f1) (in_TelegramFileID (hd (uf_parts f2)))
                            (in_FileUniqueID (hd (uf_parts f2)))
                            (int (length (upload_data f1))) (uf_mimeType f2)
                     else g) (files st)"
        "file_parts st' =
           filter (\<lambda>p. part_FileID p \<noteq> file_ID ex) (file_parts st) @
           (if uf_maxPartSize f1 < int (length (upload_data f1))
            then part_rows now (file_ID ex) (seq_file_parts st) (uf_parts f2) else [])"
      using Close_replace [OF f1(2) assms(1) ne e, of st row now] pre(2,3,4) t(1,3)
      by auto
    have fs: "files st' =
        map (\<lambda>g. if file_ID g = file_ID ex \<and> file_UserID g = owner
                  then replaced_row g name (in_TelegramFileID (hd (uf_parts f2)))
                         (in_FileUniqueID (hd (uf_parts f2))) S (uf_mimeType f2)
                  else g) (files st)"
      using c(6) t(1,3) sz by simp
    note l = replaced_lookup [OF pre(1,3) fs]
    have get: "\<exists>row. GetFileByID st owner (file_ID ex) = Inr row
        \<and> GetFileByID st' owner (file_ID ex) =
            Inr (replaced_row row name (in_TelegramFileID (hd (uf_parts f2)))
                   (in_FileUniqueID (hd (uf_parts f2))) S (uf_mimeType f2))"
      using pre(3) l(1) by blast
    show ?thesis
      using f1(1) c(1,2,3,4,5,7) d t(5) sz Some get l(2)
      by (intro exI [of _ f1] exI [of _ f2] exI [of _ st']) simp
  qed
qed

theorem upload_records_parts_witness:
  "(\<exists>f1 f2 st'.
      Write_chunks tg_accept (newUploadFile 1 77 2 ''big.bin'' None 3 0)
          [[1, 2], [3, 4, 5, 6, 7], []] = Some (Inr f1)
      \<and> Close tg_accept 50 (\<lambda>_. None) store_ex f1 = (None, f2, st')
      \<and> length (uf_parts f2) = 3
      \<and> map in_PartIndex (uf_parts f2) = [0, 1, 2]
      \<and> concat (map snd (uf_sent f2)) = [1, 2, 3, 4, 5, 6, 7]
      \<and> length (files st') = 4
      \<and> length (file_parts st') = 5)
   \<and> (\<exists>f1 f2 st'.
      Write_chunks tg_accept
          (newUploadFile 1 77 2 ''b.txt''
             (Some \<lparr>file_ID = 2, file_UserID = 1, file_DirID = 2, file_Name = ''b.txt'',
                     file_FileID = ''blobB0'', file_FileUniqueID = ''uB0'', file_Size = 7,
                     file_MimeType = ''text/plain'', file_CreatedAt = 7\<rparr>) 3 0)
          [[1, 2], [3, 4, 5, 6, 7], []] = Some (Inr f1)
      \<and> Close tg_accept 50 (\<lambda>_. None) store_ex f1 = (None, f2, st')
      \<and> length (uf_parts f2) = 3
      \<and> map in_PartIndex (uf_parts f2) = [0, 1, 2]
      \<and> concat (map snd (uf_sent f2)) = [1, 2, 3, 4, 5, 6, 7]
      \<and> map file_ID (files st') = [1, 2, 3]
      \<and> file_parts st' = part_rows 50 2 2 (uf_parts f2)
      \<and> length (file_parts st') = 3)"
proof -
  let ?ex = "\<lparr>file_ID = 2, file_UserID = 1, file_DirID = 2, file_Name = ''b.txt'',
               file_FileID = ''blobB0'', file_FileUniqueID = ''uB0'', file_Size = 7,
               file_MimeType = ''text/plain'', file_CreatedAt = 7\<rparr>"
  let ?f0 = "newUploadFile 1 77 2 ''big.bin'' None 3 0"
  let ?g0 = "newUploadFile 1 77 2 ''b.txt'' (Some ?ex) 3 0"
  let ?chunks = "[[1, 2], [3, 4, 5, 6, 7], []] :: byte list list"
  have tg: "tg_ok tg_accept" by (simp add: tg_ok_def tg_accept_def)
  have m: "(3::int) = uf_maxPartSize ?f0" "(3::int) = uf_maxPartSize ?g0"
    by (simp_all add: newUploadFile_def)
  have s: "(7::int) = int (length (concat ?chunks))" by simp
  have p: "(0::int) < 7" by simp
  have h: "\<not> name_taken store_ex 1 2 ''big.bin'' None None \<and> 1 \<in> set (users store_ex)
      \<and> 2 \<in> set (map dir_ID (directories store_ex)) \<and> parts_issued store_ex"
    by (simp add: name_taken_def store_ex_def parts_issued_def)
  have k: "keys_unique store_ex \<and> file_ID ?ex \<noteq> 0
      \<and> (\<exists>row. GetFileByID store_ex 1 (file_ID ?ex) = Inr row
           \<and> \<not> name_taken store_ex 1 (file_DirID row) ''b.txt'' None (Some (file_ID ?ex)))"
    by (simp add: name_taken_def store_ex_def keys_unique_def GetFileByID_def first_row_def)
  note a = upload_records_parts [of tg_accept ?f0 1 77 2 "''big.bin''" None 3 0 3 7 ?chunks
      store_ex 50, unfolded option.case, OF tg refl m(1) s p h]
  note b = upload_records_parts [of tg_accept ?g0 1 77 2 "''b.txt''" "Some ?ex" 3 0 3 7 ?chunks
      store_ex 50, unfolded option.case, OF tg refl m(2) s p k]
  from a obtain f1 f2 st' where r:
      "Write_chunks tg_accept ?f0 ?chunks = Some (Inr f1)"
      "Close tg_accept 50 (\<lambda>_. None) store_ex f1 = (None, f2, st')"
      "int (length (uf_parts f2)) = (7 + 3 - 1) div 3"
      "map in_PartIndex (uf_parts f2) = map int [0..<length (uf_parts f2)]"
      "concat (map snd (uf_sent f2)) = concat ?chunks"
      "files st' = files store_ex @
         [\<lparr>file_ID = seq_files store_ex + 1, file_UserID = 1, file_DirID = 2,
           file_Name = ''big.bin'', file_FileID = in_TelegramFileID (hd (uf_parts f2)),
           file_FileUniqueID = in_FileUniqueID (hd (uf_parts f2)),
           file_Size = 7, file_MimeType = default_mime (uf_mimeType f2),
           file_CreatedAt = 50\<rparr>]"
      "file_parts st' = file_parts store_ex @
         (if (3::int) < 7
          then part_rows 50 (seq_files store_ex + 1) (seq_file_parts store_ex) (uf_parts f2)
          else [])"
    by blast
  have l: "length (uf_parts f2) = 3" using r(3) by simp
  have "map in_PartIndex (uf_parts f2) = [0, 1, 2]"
    using r(4) l by (simp add: upt_rec)
  moreover have "length (files st') = 4" using r(6) by (simp add: store_ex_def)
  moreover have "length (file_parts st') = 5" using r(7) l by (simp add: store_ex_def)
  ultimately have new: "\<exists>f1 f2 st'.
      Write_chunks tg_accept ?f0 ?chunks = Some (Inr f1)
      \<and> Close tg_accept 50 (\<lambda>_. None) store_ex f1 = (None, f2, st')
      \<and> length (uf_parts f2) = 3
      \<and> map in_PartIndex (uf_parts f2) = [0, 1, 2]
      \<and> concat (map snd (uf_sent f2)) = [1, 2, 3, 4, 5, 6, 7]
      \<and> length (files st') = 4
      \<and> length (file_parts st') = 5"
    using r(1,2,5) l by (intro exI [of _ f1] exI [of _ f2] exI [of _ st']) simp
  from b obtain g1 g2 su where q:
      "Write_chunks tg_accept ?g0 ?chunks = Some (Inr g1)"
      "Close tg_accept 50 (\<lambda>_. None) store_ex g1 = (None, g2, su)"
      "int (length (uf_parts g2)) = (7 + 3 - 1) div 3"
      "map in_PartIndex (uf_parts g2) = map int [0..<length (uf_parts g2)]"
      "concat (map snd (uf_sent g2)) = concat ?chunks"
      "map file_ID (files su) = map file_ID (files store_ex)"
      "file_parts su =
         filter (\<lambda>p. part_FileID p \<noteq> file_ID ?ex) (file_parts store_ex) @
         (if (3::int) < 7
          then part_rows 50 (file_ID ?ex) (seq_file_parts store_ex) (uf_parts g2)
          else [])"
    by blast
  have l': "length (uf_parts g2) = 3" using q(3) by simp
  have "map in_PartIndex (uf_parts g2) = [0, 1, 2]"
    using q(4) l' by (simp add: upt_rec)
  moreover have "map file_ID (files su) = [1, 2, 3]" using q(6) by (simp add: store_ex_def)
  moreover have fp: "file_parts su = part_rows 50 2 2 (uf_parts g2)"
    using q(7) by (simp add: store_ex_def)
  moreover have "length (file_parts su) = 3" using fp l' by simp
  ultimately have rep: "\<exists>f1 f2 st'.
      Write_chunks tg_accept ?g0 ?chunks = Some (Inr f1)
      \<and> Close tg_accept 50 (\<lambda>_. None) store_ex f1 = (None, f2, st')
      \<and> length (uf_parts f2) = 3
      \<and> map in_PartIndex (uf_parts f2) = [0, 1, 2]
      \<and> concat (map snd (uf_sent f2)) = [1, 2, 3, 4, 5, 6, 7]
      \<and> map file_ID (files st') = [1, 2, 3]
      \<and> file_parts st' = part_rows 50 2 2 (uf_parts f2)
      \<and> length (file_parts st') = 3"
    using q(1,2,5) l' by (intro exI [of _ g1] exI [of _ g2] exI [of _ su]) simp
  show ?thesis using new rep by (rule conjI)
qed

section \<open>Directory listing: the order of the entries\<close>

lemma wrap64_id: "- (2 ^ 63) \<le> x \<Longrightarrow> x < 2 ^ 63 \<Longrightarrow> wrap64 x = x"
  unfolding wrap64_def by (simp add: mod_pos_pos_trivial)

lemma dirInfo_child_name:
  "map fi_name (map dirInfo (ListDirs s u dir)) = map dir_Name (ListDirs s u dir)"
  by (auto simp: ListDirs_def dirInfo_def)

text \<open>
  C9 on \<open>store_ex\<close>: the listing of directory 2 (\<open>docs\<close>, which holds the directory \<open>sub\<close> and
  the files \<open>a.txt\<close> and \<open>b.txt\<close>) is \<open>sub\<close>, \<open>a.txt\<close>, \<open>b.txt\<close>.  It is not in name order:
  \<open>sub\<close> comes before \<open>a.txt\<close>.
\<close>

theorem Readdir_not_in_name_order:
  "map fi_name (fst (fst (Readdir None None store_ex (newDirFile 1 2) 0)))
     = [''sub'', ''a.txt'', ''b.txt'']
   \<and> snd (fst (Readdir None None store_ex (newDirFile 1 2) 0)) = None
   \<and> \<not> sorted (map fi_name (fst (fst (Readdir None None store_ex (newDirFile 1 2) 0))))"
  by code_simp

text \<open>
  C9, amended.  On a handle just opened on directory \<open>dir\<close> of \<open>u\<close>, with no fault of the store,
  \<open>Readdir(count)\<close> with \<open>count \<le> 0\<close> returns the whole listing and no error, and with
  \<open>count > 0\<close> its first \<open>count\<close> entries (\<open>io.EOF\<close> when the listing is empty).  The listing
  is one list of \<open>davFileInfo\<close> records: the entries of the child directories, in the order
  of \<open>ListDirs\<close>, followed by the entries of the files, in the order of \<open>ListFiles\<close>.  Every
  entry bears the name of its row; the names of the directory entries are in ascending
  order and the names of the file entries are in ascending order (byte-wise comparison),
  and every directory entry comes before every file entry, whatever their names.
  \<open>count\<close> and the length of the listing are Go \<open>int\<close>s, so they are less than \<open>2^63\<close>.
\<close>

theorem Readdir_dirs_then_files:
  assumes "count < 2 ^ 63"
    and "int (length (ListDirs s u dir)) + int (length (ListFiles s u dir)) < 2 ^ 63"
  shows "fst (Readdir None None s (newDirFile u dir) count) =
           (if count \<le> 0
            then (map dirInfo (ListDirs s u dir) @ map fileInfo (ListFiles s u dir), None)
            else if ListDirs s u dir = [] \<and> ListFiles s u dir = [] then ([], Some ErrEOF)
            else (take (nat count)
                    (map dirInfo (ListDirs s u dir) @ map fileInfo (ListFiles s u dir)), None))
         \<and> map fi_name (map dirInfo (ListDirs s u dir) @ map fileInfo (ListFiles s u dir)) =
             map dir_Name (ListDirs s u dir) @ map file_Name (ListFiles s u dir)
         \<and> map fi_isDir (map dirInfo (ListDirs s u dir) @ map fileInfo (ListFiles s u dir)) =
             replicate (length (ListDirs s u dir)) True
             @ replicate (length (ListFiles s u dir)) False
         \<and> sorted (map dir_Name (ListDirs s u dir))
         \<and> sorted (map file_Name (ListFiles s u dir))
         \<and> set (ListDirs s u dir) =
             {d \<in> set (directories s). dir_UserID d = u \<and> dir_ParentID d = Some dir}
         \<and> set (ListFiles s u dir) =
             {f \<in> set (files s). file_UserID f = u \<and> file_DirID f = dir}"
proof -
  let ?L = "map dirInfo (ListDirs s u dir) @ map fileInfo (ListFiles s u dir)"
  have emp: "ListDirs s u dir = [] \<and> ListFiles s u dir = []"
    if "int (length (ListDirs s u dir)) + int (length (ListFiles s u dir)) \<le> 0"
    using that by (cases "ListDirs s u dir"; cases "ListFiles s u dir") simp_all
  have r: "fst (Readdir None None s (newDirFile u dir) count) =
      (if count \<le> 0 then (?L, None)
       else if ListDirs s u dir = [] \<and> ListFiles s u dir = [] then ([], Some ErrEOF)
       else (take (nat count) ?L, None))"
  proof (cases "count \<le> 0")
    case True
    have "wrap64 (int (length ?L)) = int (length ?L)"
      using assms(2) by (intro wrap64_id) simp_all
    then show ?thesis using True emp
      by (auto simp: Readdir_def newDirFile_def Let_def)
  next
    case False
    then have w: "wrap64 count = count" using assms by (intro wrap64_id) simp_all
    show ?thesis
    proof (cases "ListDirs s u dir = [] \<and> ListFiles s u dir = []")
      case True
      then show ?thesis using False by (simp add: Readdir_def newDirFile_def Let_def)
    next
      case ne: False
      have "take (nat (int (length ?L))) ?L = take (nat count) ?L"
        if "int (length ?L) < count"
        using that by simp
      then show ?thesis using False ne w emp
        by (auto simp: Readdir_def newDirFile_def Let_def)
    qed
  qed
  have n: "map fi_name ?L = map dir_Name (ListDirs s u dir) @ map file_Name (ListFiles s u dir)"
    using dirInfo_child_name [of s u dir] by (simp add: fileInfo_def comp_def)
  have k: "map fi_isDir ?L =
      replicate (length (ListDirs s u dir)) True @ replicate (length (ListFiles s u dir)) False"
    by (simp add: dirInfo_def fileInfo_def comp_def Let_def map_replicate_const)
  have s1: "sorted (map dir_Name (ListDirs s u dir))"
    by (simp add: ListDirs_def)
  have s2: "sorted (map file_Name (ListFiles s u dir))"
    by (simp add: ListFiles_def)
  have e1: "set (ListDirs s u dir) =
      {d \<in> set (directories s). dir_UserID d = u \<and> dir_ParentID d = Some dir}"
    by (simp add: ListDirs_def)
  have e2: "set (ListFiles s u dir) =
      {f \<in> set (files s). file_UserID f = u \<and> file_DirID f = dir}"
    by (simp add: ListFiles_def)
  show ?thesis using r n k s1 s2 e1 e2 by simp
qed

theorem Readdir_dirs_then_files_witness:
  "(0::int) < 2 ^ 63
   \<and> int (length (ListDirs store_ex 1 2)) + int (length (ListFiles store_ex 1 2)) < 2 ^ 63
   \<and> map fi_name (fst (fst (Readdir None None store_ex (newDirFile 1 2) 0)))
       = [''sub'', ''a.txt'', ''b.txt'']
   \<and> map fi_isDir (fst (fst (Readdir None None store_ex (newDirFile 1 2) 0)))
       = [True, False, False]
   \<and> (2::int) < 2 ^ 63
   \<and> map fi_name (fst (fst (Readdir None None store_ex (newDirFile 1 2) 2)))
       = [''sub'', ''a.txt'']"
proof -
  have d: "ListDirs store_ex 1 2 =
      [\<lparr>dir_ID = 4, dir_UserID = 1, dir_ParentID = Some 2, dir_Name = ''sub'',
        dir_CreatedAt = 4, dir_UpdatedAt = 4\<rparr>]"
    by (simp add: ListDirs_def store_ex_def)
  have f: "map file_Name (ListFiles store_ex 1 2) = [''a.txt'', ''b.txt'']"
    by code_simp
  have l: "length (ListFiles store_ex 1 2) = 2"
    by code_simp
  have a: "(0::int) < 2 ^ 63" "(2::int) < 2 ^ 63"
      "int (length (ListDirs store_ex 1 2)) + int (length (ListFiles store_ex 1 2)) < 2 ^ 63"
    using d l by simp_all
  note t0 = Readdir_dirs_then_files [of 0 store_ex 1 2, OF a(1,3)]
  note t2 = Readdir_dirs_then_files [of 2 store_ex 1 2, OF a(2,3)]
  have "map fi_name (fst (fst (Readdir None None store_ex (newDirFile 1 2) 0)))
      = [''sub'', ''a.txt'', ''b.txt'']"
    using t0 d f by simp
  moreover have "map fi_isDir (fst (fst (Readdir None None store_ex (newDirFile 1 2) 0)))
      = [True, False, False]"
    using t0 d l by (simp add: numeral_2_eq_2)
  moreover have "map fi_name (fst (fst (Readdir None None store_ex (newDirFile 1 2) 2)))
      = [''sub'', ''a.txt'']"
    using t2 d f by (auto simp: take_map [symmetric] simp del: take_map)
  ultimately show ?thesis using a by simp
qed

end
